theory Spec2Isabelle
  imports Main "HOL-Library.Sublist" "HOL-Library.AList"
begin

section \<open>Shared vocabulary\<close>

text \<open>
  The plugin runtime of Prism is written in Python. Exceptions are values here: every
  function that can raise returns a sum whose left injection carries the exception.
  Log lines are kept as data so that "a warning is logged" is a statement about a result.
\<close>

datatype py_exception =
    InvalidVersion string
  | InvalidSpecifier string
  | ValueError string
  | KeyError string
  | PermissionError string
  | TypeError string
  | OtherException string

datatype log_level = LDebug | LInfo | LWarning | LError

type_synonym log_entry = "log_level \<times> string"

section \<open>Version constraints (\<open>PluginLoader._version_satisfies\<close>)\<close>

text \<open>
  \<open>packaging.version.parse\<close> and \<open>packaging.specifiers.SpecifierSet\<close> belong to a third-party
  library. They are parameters of the model: each call either yields a value or raises.
\<close>

record ('v, 's) packaging =
  parse_version :: "string \<Rightarrow> py_exception + 'v"
  SpecifierSet :: "string \<Rightarrow> py_exception + 's"
  spec_contains :: "'s \<Rightarrow> 'v \<Rightarrow> bool"

text \<open>
  The two \<open>except\<close> clauses of \<open>_version_satisfies\<close>: \<open>InvalidVersion\<close> and
  \<open>InvalidSpecifier\<close> are logged as a warning and answered \<open>True\<close>; any other exception is
  logged as an error and answered \<open>False\<close>.
\<close>

fun version_except :: "py_exception \<Rightarrow> bool \<times> log_entry list" where
  "version_except (InvalidVersion m) =
     (True, [(LWarning, ''Could not validate version constraint'')])"
| "version_except (InvalidSpecifier m) =
     (True, [(LWarning, ''Could not validate version constraint'')])"
| "version_except e =
     (False, [(LError, ''An unexpected error occurred during version satisfaction check'')])"

definition version_satisfies ::
  "('v, 's) packaging \<Rightarrow> string \<Rightarrow> string \<Rightarrow> bool \<times> log_entry list" where
  "version_satisfies pk version constraint =
     (if constraint = [] then (True, [])
      else (case parse_version pk version of
              Inl e \<Rightarrow> version_except e
            | Inr parsed_v \<Rightarrow>
                (case SpecifierSet pk constraint of
                   Inl e \<Rightarrow> version_except e
                 | Inr spec \<Rightarrow> (spec_contains pk spec parsed_v, []))))"

text \<open>Whether a (version, constraint) pair is one the library cannot parse.\<close>

definition unparseable :: "('v, 's) packaging \<Rightarrow> string \<Rightarrow> string \<Rightarrow> bool" where
  "unparseable pk version constraint =
     (case parse_version pk version of
        Inl (InvalidVersion m) \<Rightarrow> True
      | Inl e \<Rightarrow> False
      | Inr parsed_v \<Rightarrow>
          (case SpecifierSet pk constraint of
             Inl (InvalidSpecifier m) \<Rightarrow> True
           | Inl e \<Rightarrow> False
           | Inr spec \<Rightarrow> False))"

section \<open>Plugin metadata (\<open>app/plugins/interface.py\<close>)\<close>

record SandboxPermission =
  perm_type :: string
  perm_resource :: "string option"
  perm_description :: string

record PluginMetadata =
  meta_name :: string
  meta_version :: string
  meta_dependencies :: "string list"
  meta_permissions :: "SandboxPermission list"

text \<open>
  The dependency gate inside the loop of \<open>PluginLoader.load_all_plugins\<close>: for one plugin,
  the list \<open>unmet\<close> built from its declared dependencies, the metadata of the plugins loaded
  so far and its version constraints. \<open>constraints.get(dep, '*')\<close> and the f-strings are
  written out.
\<close>

fun unmet_dependencies ::
  "('v, 's) packaging \<Rightarrow> (string \<rightharpoonup> PluginMetadata) \<Rightarrow> (string \<rightharpoonup> string) \<Rightarrow>
   string list \<Rightarrow> string list \<times> log_entry list" where
  "unmet_dependencies pk plugin_metadata constraints [] = ([], [])"
| "unmet_dependencies pk plugin_metadata constraints (dep # deps) =
     (let (unmet, lg) = unmet_dependencies pk plugin_metadata constraints deps in
      case plugin_metadata dep of
        None \<Rightarrow>
          ((dep @ ''@'' @ (case constraints dep of None \<Rightarrow> ''*'' | Some c \<Rightarrow> c)) # unmet, lg)
      | Some md \<Rightarrow>
          (case constraints dep of
             None \<Rightarrow> (unmet, lg)
           | Some constraint \<Rightarrow>
               if constraint = [] then (unmet, lg)
               else
                 (let (ok, lg1) = version_satisfies pk (meta_version md) constraint in
                  if ok then (unmet, lg1 @ lg)
                  else ((dep @ ''@'' @ constraint @ '' (have '' @ meta_version md @ '')'') # unmet,
                        lg1 @ lg))))"

section \<open>Dependency resolver (\<open>DependencyResolver\<close> in \<open>app/plugins/loader.py\<close>)\<close>

text \<open>
  \<open>dependency_graph\<close> is a Python dict from plugin name to the set of its dependencies. The
  dict is an association list in insertion order; each value is the list in which the set
  happens to be iterated, so a statement for all such lists is a statement for every
  iteration order. \<open>resolved_order\<close> is an attribute of the resolver and survives a call.
\<close>

type_synonym dep_graph = "(string \<times> string list) list"

record DependencyResolver =
  dependency_graph :: dep_graph
  resolved_order :: "string list"

definition DependencyResolver_init :: DependencyResolver where
  "DependencyResolver_init = \<lparr> dependency_graph = [], resolved_order = [] \<rparr>"

definition add_plugin :: "string \<Rightarrow> string list \<Rightarrow> DependencyResolver \<Rightarrow> DependencyResolver" where
  "add_plugin plugin_name dependencies r =
     r\<lparr> dependency_graph := AList.update plugin_name dependencies (dependency_graph r) \<rparr>"

definition graph_keys :: "dep_graph \<Rightarrow> string set" where
  "graph_keys g = set (map fst g)"

text \<open>\<open>self.dependency_graph.get(node, set())\<close>\<close>

definition deps_of :: "dep_graph \<Rightarrow> string \<Rightarrow> string list" where
  "deps_of g node = (case map_of g node of None \<Rightarrow> [] | Some ds \<Rightarrow> ds)"

text \<open>
  The local variables of \<open>resolve_dependencies\<close> that the closure \<open>visit\<close> mutates:
  the sets \<open>resolved\<close> and \<open>temp_mark\<close>, and \<open>self.resolved_order\<close>.
\<close>

record visit_state =
  resolved :: "string set"
  temp_mark :: "string set"
  order :: "string list"

text \<open>
  \<open>visit\<close> is recursive through the loop over the dependencies of a node. The recursion
  depth is bounded by a fuel argument: \<open>None\<close> means that the fuel ran out, and
  \<open>Some (exn, st)\<close> that the call ended in state \<open>st\<close>, by raising when \<open>exn\<close> is \<open>Some\<close>.
  The fuel given by \<open>resolve_dependencies\<close> is shown below to be always enough.
\<close>

fun visit :: "dep_graph \<Rightarrow> nat \<Rightarrow> string \<Rightarrow> visit_state \<Rightarrow>
                (py_exception option \<times> visit_state) option"
  and visit_deps :: "dep_graph \<Rightarrow> nat \<Rightarrow> string list \<Rightarrow> visit_state \<Rightarrow>
                (py_exception option \<times> visit_state) option" where
  "visit g 0 node st = None"
| "visit g (Suc n) node st =
     (if node \<in> temp_mark st then
        Some (Some (ValueError (''Circular dependency detected involving '' @ node)), st)
      else if node \<in> resolved st then Some (None, st)
      else
        (case visit_deps g n (deps_of g node) (st\<lparr> temp_mark := insert node (temp_mark st) \<rparr>) of
           None \<Rightarrow> None
         | Some (Some e, st') \<Rightarrow> Some (Some e, st')
         | Some (None, st') \<Rightarrow>
             Some (None, st'\<lparr> temp_mark := temp_mark st' - {node},
                               resolved := insert node (resolved st'),
                               order := order st' @ [node] \<rparr>)))"
| "visit_deps g n [] st = Some (None, st)"
| "visit_deps g n (dependency # ds) st =
     (if dependency \<notin> graph_keys g then visit_deps g n ds st
      else
        (case visit g n dependency st of
           None \<Rightarrow> None
         | Some (Some e, st') \<Rightarrow> Some (Some e, st')
         | Some (None, st') \<Rightarrow> visit_deps g n ds st'))"

text \<open>The loop \<open>for plugin in self.dependency_graph: if plugin not in resolved: visit(plugin)\<close>.\<close>

fun visit_plugins :: "dep_graph \<Rightarrow> nat \<Rightarrow> string list \<Rightarrow> visit_state \<Rightarrow>
                (py_exception option \<times> visit_state) option" where
  "visit_plugins g n [] st = Some (None, st)"
| "visit_plugins g n (plugin # ps) st =
     (if plugin \<in> resolved st then visit_plugins g n ps st
      else
        (case visit g n plugin st of
           None \<Rightarrow> None
         | Some (Some e, st') \<Rightarrow> Some (Some e, st')
         | Some (None, st') \<Rightarrow> visit_plugins g n ps st'))"

text \<open>
  \<open>resolve_dependencies\<close>: the result is the raised exception or the returned list, with
  the resolver as the call leaves it (\<open>resolved_order\<close> keeps what was appended before a
  raise).
\<close>

definition resolve_dependencies ::
  "DependencyResolver \<Rightarrow> ((py_exception + string list) \<times> DependencyResolver) option" where
  "resolve_dependencies r =
     (let g = dependency_graph r in
      case visit_plugins g (Suc (length g)) (map fst g)
             \<lparr> resolved = {}, temp_mark = {}, order = resolved_order r \<rparr> of
        None \<Rightarrow> None
      | Some (Some e, st) \<Rightarrow> Some (Inl e, r\<lparr> resolved_order := order st \<rparr>)
      | Some (None, st) \<Rightarrow> Some (Inr (order st), r\<lparr> resolved_order := order st \<rparr>))"

text \<open>
  What the claims say about an order and a graph: an edge leads from a plugin to each
  declared dependency that is itself a key of the graph; a graph is cyclic when some plugin
  reaches itself along edges; an order is topological when every plugin of the graph occurs
  in it exactly once, after all its dependencies that are present.
\<close>

definition dep_edges :: "dep_graph \<Rightarrow> (string \<times> string) set" where
  "dep_edges g = {(a, b). a \<in> graph_keys g \<and> b \<in> graph_keys g \<and> b \<in> set (deps_of g a)}"

definition cyclic :: "dep_graph \<Rightarrow> bool" where
  "cyclic g = (\<exists>x. (x, x) \<in> (dep_edges g)\<^sup>+)"

definition deps_first :: "dep_graph \<Rightarrow> string list \<Rightarrow> bool" where
  "deps_first g xs =
     (\<forall>i < length xs. \<forall>d \<in> set (deps_of g (xs ! i)). d \<in> graph_keys g \<longrightarrow> d \<in> set (take i xs))"

definition topological :: "dep_graph \<Rightarrow> string list \<Rightarrow> bool" where
  "topological g xs = (set xs = graph_keys g \<and> distinct xs \<and> deps_first g xs)"

text \<open>
  The invariant of the traversal: \<open>resolved\<close> is the set of the plugins in \<open>order\<close>, which
  has no repetition and lists dependencies first; a plugin on the current path
  (\<open>temp_mark\<close>) is not yet resolved; only keys of the graph are ever marked.
\<close>

definition visit_inv :: "dep_graph \<Rightarrow> visit_state \<Rightarrow> bool" where
  "visit_inv g st =
     (set (order st) = resolved st \<and> distinct (order st) \<and> deps_first g (order st) \<and>
      resolved st \<inter> temp_mark st = {} \<and>
      resolved st \<subseteq> graph_keys g \<and> temp_mark st \<subseteq> graph_keys g)"

section \<open>Python values and library functions\<close>

text \<open>
  The arguments of an audit event are arbitrary Python objects. The model keeps the kinds
  the runtime looks at: \<open>None\<close>, strings, integers, tuples and lists (one constructor,
  the matchers treat them alike), and \<open>PObj s\<close> for any other object, such as a
  \<open>pathlib.Path\<close>, whose \<open>str()\<close> is \<open>s\<close> and which is not iterable.
\<close>

datatype pyval = PNone | PStr string | PInt int | PSeq "pyval list" | PObj string

text \<open>
  Functions of the standard library that the runtime calls but does not define are
  parameters: \<open>fnmatch.fnmatch name pattern\<close>, \<open>os.path.abspath\<close>, \<open>os.getcwd\<close> (both may
  raise) and the \<open>str()\<close> of a value that is not a string. Paths follow POSIX:
  \<open>os.sep\<close> is \<open>/\<close>.
\<close>

record pylib =
  fnmatch :: "string \<Rightarrow> string \<Rightarrow> bool"
  abspath :: "string \<Rightarrow> py_exception + string"
  getcwd :: "py_exception + string"
  str_of :: "pyval \<Rightarrow> string"

definition py_str :: "pylib \<Rightarrow> pyval \<Rightarrow> string" where
  "py_str lib v = (case v of PStr s \<Rightarrow> s | PObj s \<Rightarrow> s | _ \<Rightarrow> str_of lib v)"

text \<open>\<open>sub in s\<close> for strings, \<open>s.startswith(p)\<close> is \<^const>\<open>prefix\<close>.\<close>

fun str_contains :: "string \<Rightarrow> string \<Rightarrow> bool" where
  "str_contains sub [] = (sub = [])"
| "str_contains sub (c # cs) = (prefix sub (c # cs) \<or> str_contains sub cs)"

text \<open>\<open>c in v\<close> for a one-character string \<open>c\<close>: a \<open>TypeError\<close> unless \<open>v\<close> is iterable.\<close>

fun chr_in :: "char \<Rightarrow> pyval \<Rightarrow> py_exception + bool" where
  "chr_in c (PStr s) = Inr (c \<in> set s)"
| "chr_in c (PSeq xs) = Inr (PStr [c] \<in> set xs)"
| "chr_in c PNone = Inl (TypeError ''argument of type 'NoneType' is not iterable'')"
| "chr_in c (PInt i) = Inl (TypeError ''argument of type 'int' is not iterable'')"
| "chr_in c (PObj s) = Inl (TypeError ''argument of type object is not iterable'')"

text \<open>\<open>any(c in v for c in cs)\<close>: the generator stops at the first hit or the first raise.\<close>

fun any_chr_in :: "char list \<Rightarrow> pyval \<Rightarrow> py_exception + bool" where
  "any_chr_in [] v = Inr False"
| "any_chr_in (c # cs) v =
     (case chr_in c v of Inl e \<Rightarrow> Inl e | Inr True \<Rightarrow> Inr True | Inr False \<Rightarrow> any_chr_in cs v)"

text \<open>\<open>str.lower()\<close> on ASCII letters and \<open>str.replace\<close> of one character.\<close>

definition lower_char :: "char \<Rightarrow> char" where
  "lower_char c =
     (let n = (of_char c :: nat) in if 65 \<le> n \<and> n \<le> 90 then char_of (n + 32) else c)"

definition str_lower :: "string \<Rightarrow> string" where
  "str_lower s = map lower_char s"

definition replace_char :: "char \<Rightarrow> char \<Rightarrow> string \<Rightarrow> string" where
  "replace_char a b s = map (\<lambda>c. if c = a then b else c) s"

text \<open>\<open>os.path.join\<close> of two components (\<open>posixpath\<close>).\<close>

definition path_join :: "string \<Rightarrow> string \<Rightarrow> string" where
  "path_join a b =
     (if prefix ''/'' b then b
      else if a = [] \<or> last a = CHR ''/'' then a @ b
      else a @ ''/'' @ b)"

text \<open>\<open>str.strip()\<close>: ASCII white space off both ends.\<close>

definition is_space :: "char \<Rightarrow> bool" where
  "is_space c = (c \<in> set [CHR '' '', CHR 0x09, CHR 0x0A, CHR 0x0B, CHR 0x0C, CHR 0x0D])"

definition str_strip :: "string \<Rightarrow> string" where
  "str_strip s = rev (dropWhile is_space (rev (dropWhile is_space s)))"

section \<open>Permission engine (\<open>app/core/permission_engine.py\<close>)\<close>

text \<open>
  A \<open>PermissionDefinition\<close>. The free-text \<open>description\<close> plays no part in any decision and
  is left out. \<open>resource_matcher\<close> is a Python callable: it returns a truth value or raises.
\<close>

record PermissionDefinition =
  pd_name :: string
  match_type :: string
  event_names :: "string list"
  match_resource_pattern :: "string option"
  resource_matcher :: "pyval \<Rightarrow> py_exception + bool"

record PermissionEngine =
  permissions :: "(string \<times> PermissionDefinition) list"
  event_map :: "(string \<times> PermissionDefinition list) list"

definition event_perms :: "PermissionEngine \<Rightarrow> string \<Rightarrow> PermissionDefinition list" where
  "event_perms eng event = (case map_of (event_map eng) event of None \<Rightarrow> [] | Some ps \<Rightarrow> ps)"

definition register :: "PermissionDefinition \<Rightarrow> PermissionEngine \<Rightarrow> py_exception + PermissionEngine" where
  "register perm_def eng =
     (if pd_name perm_def \<in> fst ` set (permissions eng) then
        Inl (ValueError (''Permission '' @ pd_name perm_def @ '' is already registered.''))
      else
        Inr (eng\<lparr> permissions := permissions eng @ [(pd_name perm_def, perm_def)],
                   event_map :=
                     fold (\<lambda>event m. AList.update event (event_perms (eng\<lparr> event_map := m \<rparr>) event @ [perm_def]) m)
                          (event_names perm_def) (event_map eng) \<rparr>))"

definition get_permission_definition :: "PermissionEngine \<Rightarrow> string \<Rightarrow> PermissionDefinition option" where
  "get_permission_definition eng name = map_of (permissions eng) name"

text \<open>The six definitions of \<open>_register_default_permissions\<close>, in the source's order.\<close>

definition port_matcher :: "int \<Rightarrow> pyval \<Rightarrow> py_exception + bool" where
  "port_matcher port addr =
     (case addr of
        PSeq xs \<Rightarrow> Inr (length xs > 1 \<and> xs ! 1 = PInt port)
      | _ \<Rightarrow> Inr False)"

definition file_read_plugin :: PermissionDefinition where
  "file_read_plugin =
     \<lparr> pd_name = ''file.read.plugin'', match_type = ''file'', event_names = [''open''],
       match_resource_pattern = Some ''read'',
       resource_matcher = (\<lambda>mode. chr_in CHR ''r'' mode) \<rparr>"

definition file_write_plugin :: PermissionDefinition where
  "file_write_plugin =
     \<lparr> pd_name = ''file.write.plugin'', match_type = ''file'', event_names = [''open''],
       match_resource_pattern = Some ''write'',
       resource_matcher = (\<lambda>mode. any_chr_in [CHR ''w'', CHR ''a'', CHR ''+''] mode) \<rparr>"

definition network_https :: PermissionDefinition where
  "network_https =
     \<lparr> pd_name = ''network.https'', match_type = ''network'', event_names = [''socket.connect''],
       match_resource_pattern = Some ''outbound:https'',
       resource_matcher = port_matcher 443 \<rparr>"

definition network_http :: PermissionDefinition where
  "network_http =
     \<lparr> pd_name = ''network.http'', match_type = ''network'', event_names = [''socket.connect''],
       match_resource_pattern = Some ''outbound:http'',
       resource_matcher = port_matcher 80 \<rparr>"

definition api_create_route :: PermissionDefinition where
  "api_create_route =
     \<lparr> pd_name = ''api.create_route'', match_type = ''api'', event_names = [],
       match_resource_pattern = Some ''create_route'',
       resource_matcher = (\<lambda>_. Inr True) \<rparr>"

definition system_subprocess :: PermissionDefinition where
  "system_subprocess =
     \<lparr> pd_name = ''system.subprocess'', match_type = ''system'',
       event_names = [''os.system'', ''subprocess.''],
       match_resource_pattern = Some ''subprocess'',
       resource_matcher = (\<lambda>_. Inr True) \<rparr>"

definition default_permissions :: "PermissionDefinition list" where
  "default_permissions =
     [file_read_plugin, file_write_plugin, network_https, network_http,
      api_create_route, system_subprocess]"

fun register_all :: "PermissionDefinition list \<Rightarrow> PermissionEngine \<Rightarrow> py_exception + PermissionEngine" where
  "register_all [] eng = Inr eng"
| "register_all (perm_def # ps) eng =
     (case register perm_def eng of Inl e \<Rightarrow> Inl e | Inr eng' \<Rightarrow> register_all ps eng')"

text \<open>\<open>PermissionEngine.__init__\<close>: empty tables, then the default registrations.\<close>

definition PermissionEngine_init :: "py_exception + PermissionEngine" where
  "PermissionEngine_init = register_all default_permissions \<lparr> permissions = [], event_map = [] \<rparr>"

text \<open>The engine that \<open>PermissionEngine_init\<close> builds (shown below), written out.\<close>

definition permission_engine :: PermissionEngine where
  "permission_engine =
     \<lparr> permissions =
         [(''file.read.plugin'', file_read_plugin), (''file.write.plugin'', file_write_plugin),
          (''network.https'', network_https), (''network.http'', network_http),
          (''api.create_route'', api_create_route), (''system.subprocess'', system_subprocess)],
       event_map =
         [(''open'', [file_read_plugin, file_write_plugin]),
          (''socket.connect'', [network_https, network_http]),
          (''os.system'', [system_subprocess]),
          (''subprocess.'', [system_subprocess])] \<rparr>"

text \<open>
  \<open>map_event_to_permissions\<close>. An event without an entry of its own gets the definitions of
  every key that is a prefix of its name. Each candidate's matcher sees the discriminator
  of the event (the mode of an \<open>open\<close>, the address of a \<open>socket.connect\<close>, else the first
  argument); a matcher that raises ends the call.
\<close>

definition potential_perms :: "PermissionEngine \<Rightarrow> string \<Rightarrow> PermissionDefinition list" where
  "potential_perms eng event =
     (case event_perms eng event of
        [] \<Rightarrow> concat (map snd (filter (\<lambda>(key, ps). prefix key event) (event_map eng)))
      | p # ps \<Rightarrow> p # ps)"

definition resource_to_match :: "string \<Rightarrow> pyval list \<Rightarrow> pyval" where
  "resource_to_match event args =
     (if event = ''open'' \<and> length args > 1 then args ! 1
      else if event = ''socket.connect'' \<and> length args > 1 then args ! 1
      else if prefix ''subprocess.'' event \<and> args \<noteq> [] then args ! 0
      else if args \<noteq> [] then args ! 0
      else PNone)"

definition resource_to_return :: "pyval list \<Rightarrow> pyval" where
  "resource_to_return args = (if args \<noteq> [] then args ! 0 else PNone)"

fun match_perms :: "PermissionDefinition list \<Rightarrow> pyval \<Rightarrow> pyval \<Rightarrow>
                      py_exception + (PermissionDefinition \<times> pyval) list" where
  "match_perms [] to_match to_return = Inr []"
| "match_perms (perm # ps) to_match to_return =
     (case resource_matcher perm to_match of
        Inl e \<Rightarrow> Inl e
      | Inr hit \<Rightarrow>
          (case match_perms ps to_match to_return of
             Inl e \<Rightarrow> Inl e
           | Inr matched \<Rightarrow> Inr (if hit then (perm, to_return) # matched else matched)))"

definition map_event_to_permissions ::
  "PermissionEngine \<Rightarrow> string \<Rightarrow> pyval list \<Rightarrow> py_exception + (PermissionDefinition \<times> pyval) list" where
  "map_event_to_permissions eng event args =
     match_perms (potential_perms eng event) (resource_to_match event args) (resource_to_return args)"

text \<open>
  \<open>find_definition_for_declaration\<close>: the first definition, in registration order, of the
  declared type whose pattern is absent or matches the declared resource.
\<close>

fun find_definition :: "pylib \<Rightarrow> PermissionDefinition list \<Rightarrow> string \<Rightarrow> string option \<Rightarrow>
                          PermissionDefinition option" where
  "find_definition lib [] decl_type decl_resource = None"
| "find_definition lib (perm # ps) decl_type decl_resource =
     (if match_type perm = decl_type then
        (case match_resource_pattern perm of
           None \<Rightarrow> Some perm
         | Some pat \<Rightarrow>
             if pat \<noteq> [] \<and>
                (case decl_resource of None \<Rightarrow> False
                 | Some res \<Rightarrow> res \<noteq> [] \<and> fnmatch lib res pat)
             then Some perm
             else find_definition lib ps decl_type decl_resource)
      else find_definition lib ps decl_type decl_resource)"

definition find_definition_for_declaration ::
  "pylib \<Rightarrow> PermissionEngine \<Rightarrow> string \<Rightarrow> string option \<Rightarrow> PermissionDefinition option" where
  "find_definition_for_declaration lib eng decl_type decl_resource =
     find_definition lib (map snd (permissions eng)) decl_type decl_resource"

section \<open>Capability ledger (\<open>SandboxPermissionManager\<close> in \<open>app/plugins/interface.py\<close>)\<close>

text \<open>
  \<open>granted_permissions\<close> maps a plugin to a Python set of capability names. The set is the
  list in which it is iterated (\<open>check_permission\<close> may leave its loop early, or raise, so
  the order is visible); statements about the ledger hold for every such list.
\<close>

record SandboxPermissionManager =
  granted_permissions :: "string \<rightharpoonup> string list"
  permission_violations :: "string \<rightharpoonup> string list"

definition SandboxPermissionManager_init :: SandboxPermissionManager where
  "SandboxPermissionManager_init =
     \<lparr> granted_permissions = Map.empty, permission_violations = Map.empty \<rparr>"

definition set_add :: "string \<Rightarrow> string list \<Rightarrow> string list" where
  "set_add x xs = (if x \<in> set xs then xs else xs @ [x])"

fun grant_loop :: "pylib \<Rightarrow> PermissionEngine \<Rightarrow> SandboxPermission list \<Rightarrow> string list \<Rightarrow> string list" where
  "grant_loop lib eng [] granted = granted"
| "grant_loop lib eng (permission # ps) granted =
     (case find_definition_for_declaration lib eng (perm_type permission) (perm_resource permission) of
        None \<Rightarrow> grant_loop lib eng ps granted
      | Some perm_def \<Rightarrow> grant_loop lib eng ps (set_add (pd_name perm_def) granted))"

definition grant_permissions ::
  "pylib \<Rightarrow> PermissionEngine \<Rightarrow> string \<Rightarrow> SandboxPermission list \<Rightarrow>
   SandboxPermissionManager \<Rightarrow> SandboxPermissionManager" where
  "grant_permissions lib eng plugin_name perms pm =
     pm\<lparr> granted_permissions := (granted_permissions pm)(plugin_name \<mapsto>
           grant_loop lib eng perms
             (case granted_permissions pm plugin_name of None \<Rightarrow> [] | Some gs \<Rightarrow> gs)) \<rparr>"

text \<open>The second half of \<open>check_permission\<close>: the loop over the granted names as patterns.\<close>

fun check_wildcards :: "pylib \<Rightarrow> PermissionEngine \<Rightarrow> string list \<Rightarrow> string \<Rightarrow> pyval \<Rightarrow>
                          py_exception + bool" where
  "check_wildcards lib eng [] required_perm_name resource = Inr False"
| "check_wildcards lib eng (granted_perm_name # gs) required_perm_name resource =
     (if fnmatch lib required_perm_name granted_perm_name then
        (case get_permission_definition eng granted_perm_name of
           None \<Rightarrow> check_wildcards lib eng gs required_perm_name resource
         | Some perm_def \<Rightarrow>
             (case resource_matcher perm_def resource of
                Inl e \<Rightarrow> Inl e
              | Inr True \<Rightarrow> Inr True
              | Inr False \<Rightarrow> check_wildcards lib eng gs required_perm_name resource))
      else check_wildcards lib eng gs required_perm_name resource)"

definition check_permission ::
  "pylib \<Rightarrow> PermissionEngine \<Rightarrow> SandboxPermissionManager \<Rightarrow> string \<Rightarrow> string \<Rightarrow> pyval \<Rightarrow>
   py_exception + bool" where
  "check_permission lib eng pm plugin_name required_perm_name resource =
     (case granted_permissions pm plugin_name of
        None \<Rightarrow> Inr False
      | Some granted_perms_for_plugin \<Rightarrow>
          if required_perm_name \<in> set granted_perms_for_plugin then Inr True
          else check_wildcards lib eng granted_perms_for_plugin required_perm_name resource)"

definition has_permission_prefix :: "SandboxPermissionManager \<Rightarrow> string \<Rightarrow> string \<Rightarrow> bool" where
  "has_permission_prefix pm plugin_name pre =
     (case granted_permissions pm plugin_name of
        None \<Rightarrow> False
      | Some gs \<Rightarrow> list_ex (prefix pre) gs)"

definition log_violation :: "string \<Rightarrow> string \<Rightarrow> SandboxPermissionManager \<Rightarrow> SandboxPermissionManager" where
  "log_violation plugin_name violation pm =
     pm\<lparr> permission_violations := (permission_violations pm)(plugin_name \<mapsto>
           (case permission_violations pm plugin_name of None \<Rightarrow> [] | Some vs \<Rightarrow> vs) @ [violation]) \<rparr>"

definition get_violations :: "SandboxPermissionManager \<Rightarrow> string \<Rightarrow> string list" where
  "get_violations pm plugin_name =
     (case permission_violations pm plugin_name of None \<Rightarrow> [] | Some vs \<Rightarrow> vs)"

text \<open>
  What is assumed of \<open>fnmatch\<close> where it matters: a pattern without the metacharacters
  \<open>*\<close>, \<open>?\<close> and \<open>[\<close> matches exactly itself.
\<close>

definition literal_pattern :: "string \<Rightarrow> bool" where
  "literal_pattern pat = (CHR ''*'' \<notin> set pat \<and> CHR ''?'' \<notin> set pat \<and> CHR ''['' \<notin> set pat)"

definition fnmatch_literal :: "pylib \<Rightarrow> bool" where
  "fnmatch_literal lib = (\<forall>name pat. literal_pattern pat \<longrightarrow> fnmatch lib name pat = (name = pat))"

text \<open>The names a plugin holds in the ledger (none when it has no entry).\<close>

definition granted_names :: "SandboxPermissionManager \<Rightarrow> string \<Rightarrow> string list" where
  "granted_names pm plugin_name =
     (case granted_permissions pm plugin_name of None \<Rightarrow> [] | Some gs \<Rightarrow> gs)"

section \<open>Interception engine (\<open>AuditHookManager\<close> in \<open>app/core/audit_sandbox.py\<close>)\<close>

text \<open>
  The manager holds a reference to the ledger and its own copy of the plugin root paths.
  The hook is installed by \<open>activate\<close>, which refuses to run without a ledger, so the
  tests \<open>if self.permission_manager\<close> inside the hook always succeed and are not modelled.
  A call ends by returning (\<open>None\<close>) or by raising (\<open>Some e\<close>), in the manager it leaves.
\<close>

record AuditHookManager =
  permission_manager :: SandboxPermissionManager
  am_plugin_root_paths :: "string \<rightharpoonup> string"

definition quoted :: "string \<Rightarrow> string" where
  "quoted s = CHR 0x27 # s @ [CHR 0x27]"

fun join_with :: "string \<Rightarrow> string list \<Rightarrow> string" where
  "join_with sep [] = []"
| "join_with sep [x] = x"
| "join_with sep (x # y # ys) = x @ sep @ join_with sep (y # ys)"

definition list_repr :: "string list \<Rightarrow> string" where
  "list_repr xs = ''['' @ join_with '', '' (map quoted xs) @ '']''"

text \<open>
  \<open>str(e)\<close> of an exception with one argument is the argument, except for \<open>KeyError\<close>,
  where it is the \<open>repr\<close> of the argument (escape sequences are not modelled).
\<close>

definition str_repr :: "string \<Rightarrow> string" where
  "str_repr s =
     (if CHR 0x27 \<in> set s \<and> CHR 0x22 \<notin> set s then CHR 0x22 # s @ [CHR 0x22] else quoted s)"

fun exception_message :: "py_exception \<Rightarrow> string" where
  "exception_message (InvalidVersion m) = m"
| "exception_message (InvalidSpecifier m) = m"
| "exception_message (ValueError m) = m"
| "exception_message (KeyError m) = str_repr m"
| "exception_message (PermissionError m) = m"
| "exception_message (TypeError m) = m"
| "exception_message (OtherException m) = m"

fun is_PermissionError :: "py_exception \<Rightarrow> bool" where
  "is_PermissionError (PermissionError m) = True"
| "is_PermissionError e = False"

text \<open>Log a violation for the plugin and raise \<open>PermissionError\<close> with the same message.\<close>

definition deny :: "string \<Rightarrow> string \<Rightarrow> AuditHookManager \<Rightarrow> py_exception option \<times> AuditHookManager" where
  "deny plugin_name violation_message am =
     (Some (PermissionError violation_message),
      am\<lparr> permission_manager := log_violation plugin_name violation_message (permission_manager am) \<rparr>)"

text \<open>
  \<open>_is_lock_file_access\<close>. \<open>is_write\<close> comes from the mode when it is a string, else from
  the flags when they are an integer (\<open>O_WRONLY = 1\<close>, \<open>O_RDWR = 2\<close>, \<open>O_APPEND = 1024\<close>).
\<close>

definition is_write_access :: "pyval \<Rightarrow> pyval \<Rightarrow> bool" where
  "is_write_access mode flags =
     (case mode of
        PStr m \<Rightarrow> (CHR ''w'' \<in> set m \<or> CHR ''a'' \<in> set m \<or> CHR ''+'' \<in> set m)
      | _ \<Rightarrow>
          (case flags of
             PInt f \<Rightarrow> (and f 1 \<noteq> 0 \<or> and f 2 \<noteq> 0 \<or> and f 1024 \<noteq> 0)
           | _ \<Rightarrow> False))"

text \<open>
  The \<open>except\<close> clause of \<open>_is_lock_file_access\<close>: a \<open>PermissionError\<close> is raised again as it
  is; after any other exception the path is checked as a string.
\<close>

definition lock_access_except ::
  "pylib \<Rightarrow> AuditHookManager \<Rightarrow> string \<Rightarrow> pyval \<Rightarrow> bool \<Rightarrow> py_exception \<Rightarrow>
   py_exception option \<times> AuditHookManager" where
  "lock_access_except lib am plugin_name path_arg is_write e =
     (if is_PermissionError e then (Some e, am)
      else
        (let path_str = replace_char (CHR 0x5C) CHR ''/'' (str_lower (py_str lib path_arg)) in
         if str_contains ''system_secure/'' path_str \<or>
            (is_write \<and> str_contains ''permissions.lock.json'' path_str)
         then deny plugin_name
                (''Plugin '' @ quoted plugin_name @
                 '' attempted suspicious file access (string check): '' @ py_str lib path_arg) am
         else (None, am)))"

definition is_lock_file_access ::
  "pylib \<Rightarrow> AuditHookManager \<Rightarrow> string \<Rightarrow> pyval \<Rightarrow> pyval \<Rightarrow> pyval \<Rightarrow>
   py_exception option \<times> AuditHookManager" where
  "is_lock_file_access lib am plugin_name path_arg mode flags =
     (let is_write = is_write_access mode flags;
          handler = lock_access_except lib am plugin_name path_arg is_write in
      case abspath lib (py_str lib path_arg) of
        Inl e \<Rightarrow> handler e
      | Inr abs_path \<Rightarrow>
          (case getcwd lib of
             Inl e \<Rightarrow> handler e
           | Inr project_root \<Rightarrow>
               (case abspath lib (path_join project_root ''system_secure'') of
                  Inl e \<Rightarrow> handler e
                | Inr secure_abs \<Rightarrow>
                    if prefix (secure_abs @ ''/'') abs_path then
                      deny plugin_name
                        (''Plugin '' @ quoted plugin_name @
                         '' attempted to access system secure directory: '' @
                         py_str lib path_arg @ ''. Access denied!'') am
                    else
                      (case am_plugin_root_paths am plugin_name of
                         None \<Rightarrow> (None, am)
                       | Some plugin_root \<Rightarrow>
                           if plugin_root = [] then (None, am)
                           else
                             (case abspath lib plugin_root of
                                Inl e \<Rightarrow> handler e
                              | Inr root_abs \<Rightarrow>
                                  if abs_path = path_join root_abs ''permissions.lock.json'' then
                                    deny plugin_name
                                      (''Plugin '' @ quoted plugin_name @
                                       '' attempted to access its own lock file: '' @
                                       py_str lib path_arg) am
                                  else (None, am))))))"

text \<open>\<open>_is_lock_file_modification\<close>, for \<open>os.remove\<close>, \<open>os.unlink\<close> and \<open>os.rename\<close>.\<close>

definition paths_to_check :: "pylib \<Rightarrow> string \<Rightarrow> pyval list \<Rightarrow> string list" where
  "paths_to_check lib event args =
     (if event = ''os.remove'' \<or> event = ''os.unlink'' then
        [if args \<noteq> [] then py_str lib (args ! 0) else []]
      else if event = ''os.rename'' then
        [if length args > 0 then py_str lib (args ! 0) else [],
         if length args > 1 then py_str lib (args ! 1) else []]
      else [])"

fun check_modified_paths ::
  "AuditHookManager \<Rightarrow> string \<Rightarrow> string \<Rightarrow> string list \<Rightarrow> py_exception option \<times> AuditHookManager" where
  "check_modified_paths am plugin_name event [] = (None, am)"
| "check_modified_paths am plugin_name event (path # ps) =
     (if str_contains ''permissions.lock.json'' (replace_char (CHR 0x5C) CHR ''/'' (str_lower path))
      then deny plugin_name
             (''Plugin '' @ quoted plugin_name @ '' attempted to modify a lock file via '' @
              event @ '': '' @ path) am
      else check_modified_paths am plugin_name event ps)"

definition is_lock_file_modification ::
  "pylib \<Rightarrow> AuditHookManager \<Rightarrow> string \<Rightarrow> string \<Rightarrow> pyval list \<Rightarrow>
   py_exception option \<times> AuditHookManager" where
  "is_lock_file_modification lib am plugin_name event args =
     check_modified_paths am plugin_name event (paths_to_check lib event args)"

text \<open>
  \<open>_enforce_directory_jail\<close>: returns, or raises \<open>PermissionError\<close> (every other exception
  of the \<open>try\<close> block is turned into one). It does not log; its caller does.
\<close>

definition jail_except :: "string \<Rightarrow> py_exception \<Rightarrow> py_exception option" where
  "jail_except path e =
     (if is_PermissionError e then Some e
      else Some (PermissionError
             (''Could not resolve path for resource '' @ quoted path @ '': '' @ exception_message e)))"

definition enforce_directory_jail ::
  "pylib \<Rightarrow> AuditHookManager \<Rightarrow> string \<Rightarrow> string \<Rightarrow> py_exception option" where
  "enforce_directory_jail lib am plugin_name path =
     (case abspath lib path of
        Inl e \<Rightarrow> jail_except path e
      | Inr abs_path \<Rightarrow>
          (case am_plugin_root_paths am plugin_name of
             None \<Rightarrow> Some (PermissionError (''Plugin '' @ quoted plugin_name @ '' root path not registered''))
           | Some plugin_root \<Rightarrow>
               if plugin_root = [] then
                 Some (PermissionError (''Plugin '' @ quoted plugin_name @ '' root path not registered''))
               else
                 (case abspath lib plugin_root of
                    Inl e \<Rightarrow> jail_except path e
                  | Inr plugin_root_abs \<Rightarrow>
                      (let is_within_plugin_dir =
                             (prefix (plugin_root_abs @ ''/'') abs_path \<or> abs_path = plugin_root_abs) in
                       case getcwd lib of
                         Inl e \<Rightarrow> jail_except path e
                       | Inr project_root \<Rightarrow>
                           (case abspath lib
                                   (path_join (path_join (path_join project_root ''data'') ''temp'')
                                      plugin_name) of
                              Inl e \<Rightarrow> jail_except path e
                            | Inr temp_dir_abs \<Rightarrow>
                                (let is_within_temp_dir =
                                       (prefix (temp_dir_abs @ ''/'') abs_path \<or> abs_path = temp_dir_abs) in
                                 if is_within_plugin_dir \<or> is_within_temp_dir then None
                                 else if has_permission_prefix (permission_manager am) plugin_name ''system.''
                                 then None
                                 else Some (PermissionError
                                        (''Plugin '' @ quoted plugin_name @
                                         '' attempted to access path outside its allowed directories: '' @
                                         path))))))))"

text \<open>
  The loop over the required capabilities: it stops at the first one the plugin holds.
  The result is \<open>has_any_permission\<close> with the names checked so far.
\<close>

fun check_required ::
  "pylib \<Rightarrow> PermissionEngine \<Rightarrow> SandboxPermissionManager \<Rightarrow> string \<Rightarrow>
   (PermissionDefinition \<times> pyval) list \<Rightarrow> string list \<Rightarrow> py_exception + (bool \<times> string list)" where
  "check_required lib eng pm plugin_name [] checked_perms = Inr (False, checked_perms)"
| "check_required lib eng pm plugin_name ((perm_def, resource) # rs) checked_perms =
     (case check_permission lib eng pm plugin_name (pd_name perm_def) resource of
        Inl e \<Rightarrow> Inl e
      | Inr True \<Rightarrow> Inr (True, checked_perms @ [pd_name perm_def])
      | Inr False \<Rightarrow> check_required lib eng pm plugin_name rs (checked_perms @ [pd_name perm_def]))"

text \<open>
  \<open>_audit_hook\<close>. \<open>scope\<close> is the value of \<open>current_plugin_context\<close>: \<open>None\<close> outside any
  plugin. The hook first applies the fixed rules, then maps the event, then, for an
  \<open>open\<close> with at least one required capability, the directory jail, then the
  capability check.
\<close>

definition fixed_rules ::
  "pylib \<Rightarrow> AuditHookManager \<Rightarrow> string \<Rightarrow> string \<Rightarrow> pyval list \<Rightarrow>
   py_exception option \<times> AuditHookManager" where
  "fixed_rules lib am plugin_name event args =
     (if event = ''open'' then
        (case args of
           [path_arg, mode, flags] \<Rightarrow> is_lock_file_access lib am plugin_name path_arg mode flags
         | _ \<Rightarrow> (Some (ValueError ''wrong number of values to unpack''), am))
      else if event \<in> set [''os.remove'', ''os.unlink'', ''os.rename''] then
        is_lock_file_modification lib am plugin_name event args
      else (None, am))"

definition capability_check ::
  "pylib \<Rightarrow> PermissionEngine \<Rightarrow> AuditHookManager \<Rightarrow> string \<Rightarrow> string \<Rightarrow> pyval list \<Rightarrow>
   (PermissionDefinition \<times> pyval) list \<Rightarrow> py_exception option \<times> AuditHookManager" where
  "capability_check lib eng am plugin_name event args required_perms =
     (case check_required lib eng (permission_manager am) plugin_name required_perms [] of
        Inl e \<Rightarrow> (Some e, am)
      | Inr (has_any_permission, checked_perms) \<Rightarrow>
          if has_any_permission then (None, am)
          else deny plugin_name
                 (''Plugin '' @ quoted plugin_name @
                  '' blocked from performing unauthorized action. Event: '' @ event @
                  '', Required one of Permissions: '' @ list_repr checked_perms @
                  '', Resource: '' @ (if args \<noteq> [] then py_str lib (args ! 0) else ''N/A'')) am)"

definition audit_hook ::
  "pylib \<Rightarrow> PermissionEngine \<Rightarrow> AuditHookManager \<Rightarrow> string option \<Rightarrow> string \<Rightarrow> pyval list \<Rightarrow>
   py_exception option \<times> AuditHookManager" where
  "audit_hook lib eng am scope event args =
     (case scope of
        None \<Rightarrow> (None, am)
      | Some plugin_name \<Rightarrow>
          if plugin_name = [] then (None, am)
          else
            (case fixed_rules lib am plugin_name event args of
               (Some e, am1) \<Rightarrow> (Some e, am1)
             | (None, am1) \<Rightarrow>
                 (case map_event_to_permissions eng event args of
                    Inl e \<Rightarrow> (Some e, am1)
                  | Inr required_perms \<Rightarrow>
                      if required_perms = [] then (None, am1)
                      else
                        (case (if event = ''open''
                               then enforce_directory_jail lib am1 plugin_name (py_str lib (args ! 0))
                               else None) of
                           Some e \<Rightarrow>
                             (Some e,
                              am1\<lparr> permission_manager :=
                                     log_violation plugin_name (exception_message e)
                                       (permission_manager am1) \<rparr>)
                         | None \<Rightarrow>
                             capability_check lib eng am1 plugin_name event args required_perms))))"

section \<open>Plugin loader (\<open>PluginLoader\<close> in \<open>app/plugins/loader.py\<close>)\<close>

subsection \<open>What the loader finds on disk\<close>

text \<open>
  A permission entry of a manifest or of a lock file is a JSON object; \<open>mp_type\<close> is
  \<open>None\<close> when the key \<open>type\<close> is missing or not a string.
\<close>

record manifest_perm =
  mp_type :: "string option"
  mp_resource :: "string option"
  mp_description :: "string option"

record manifest =
  mf_version :: "string option"
  mf_dependencies :: "string list"
  mf_permissions :: "manifest_perm list"

datatype lock_content = LockCorrupt | LockData "manifest_perm list"

text \<open>
  A plugin object, as far as the loader can observe it: whether it is a \<open>MetaPlugin\<close>,
  and whether its \<open>initialize\<close>, its \<open>shutdown\<close>, and (for a group) the loading of its
  sub-plugins and preset chains raise.
\<close>

record plugin_instance =
  is_meta_plugin :: bool
  initialize_raises :: bool
  shutdown_raises :: bool
  group_setup_raises :: bool

text \<open>What importing a module file and instantiating its plugin class comes to.\<close>

datatype module_outcome =
  NoSpec | ExecRaises | NoPluginClass | CtorRaises | Instance plugin_instance

text \<open>
  One directory under the plugin directory. \<open>manifest\<close> is \<open>None\<close> when neither
  \<open>plugin.yml\<close> nor \<open>plugin.json\<close> exists or it cannot be parsed; \<open>lock_file\<close> is the
  content of \<open>permissions.lock.json\<close>, \<open>None\<close> when the file does not exist.
\<close>

record plugin_dir =
  is_dir :: bool
  dir_files :: "string set"
  manifest :: "manifest option"
  lock_file :: "lock_content option"
  lock_writable :: bool
  import_module :: "string \<Rightarrow> module_outcome"
  signature_valid :: bool

subsection \<open>The loader and its environment\<close>

text \<open>
  The attributes of \<open>PluginLoader\<close>, followed by what it reads from outside: the plugin
  directory (\<open>fs_\<close>), the install registry and the settings. The ledger is the one inside
  \<open>audit_manager\<close>: both attributes refer to the same object.
\<close>

record loader_state =
  plugins :: "string \<rightharpoonup> plugin_instance"
  plugin_metadata :: "string \<rightharpoonup> PluginMetadata"
  http_client :: bool
  dependency_resolver :: DependencyResolver
  audit_manager :: AuditHookManager
  verify_signatures :: bool
  declared_dependencies :: "string \<rightharpoonup> string list"
  version_constraints :: "string \<rightharpoonup> (string \<rightharpoonup> string)"
  plugin_root_paths :: "string \<rightharpoonup> string"
  fs_plugin_dir :: string
  fs_plugin_dir_exists :: bool
  fs_listing :: "string list"
  fs_disk :: "string \<Rightarrow> plugin_dir"
  registry :: "string set"
  settings_enabled :: "string list"
  settings_auto_load :: bool

definition find_module_file :: "plugin_dir \<Rightarrow> string option" where
  "find_module_file d =
     (if ''plugin.py'' \<in> dir_files d then Some ''plugin.py''
      else if ''__init__.py'' \<in> dir_files d then Some ''__init__.py''
      else None)"

text \<open>\<open>_load_plugin_directly\<close>: every failure is logged and answered \<open>None\<close>.\<close>

definition load_plugin_directly :: "loader_state \<Rightarrow> string \<Rightarrow> string \<Rightarrow> plugin_instance option" where
  "load_plugin_directly st plugin_name module_file =
     (case import_module (fs_disk st plugin_name) module_file of
        Instance inst \<Rightarrow> if http_client st then Some inst else None
      | _ \<Rightarrow> None)"

text \<open>\<open>_parse_dependency_spec\<close>: \<open>name@constraint\<close>, split at the first \<open>@\<close>.\<close>

definition parse_dependency_spec :: "string \<Rightarrow> string \<times> string option" where
  "parse_dependency_spec spec0 =
     (let spec = str_strip spec0 in
      if spec = [] then ([], None)
      else if CHR ''@'' \<in> set spec then
        (str_strip (takeWhile (\<lambda>c. c \<noteq> CHR ''@'') spec),
         Some (str_strip (tl (dropWhile (\<lambda>c. c \<noteq> CHR ''@'') spec))))
      else (spec, None))"

fun collect_constraints :: "(string \<times> string option) list \<Rightarrow> (string \<rightharpoonup> string) \<Rightarrow> (string \<rightharpoonup> string)" where
  "collect_constraints [] constraints = constraints"
| "collect_constraints ((name, constraint) # rest) constraints =
     collect_constraints rest
       (case constraint of
          None \<Rightarrow> constraints
        | Some c \<Rightarrow> if c \<noteq> [] then constraints(name \<mapsto> c) else constraints)"

text \<open>Entries whose \<open>type\<close> is a string become \<open>SandboxPermission\<close> objects; others are skipped.\<close>

fun parse_permissions :: "manifest_perm list \<Rightarrow> SandboxPermission list" where
  "parse_permissions [] = []"
| "parse_permissions (perm_dict # ps) =
     (case mp_type perm_dict of
        Some t \<Rightarrow>
          \<lparr> perm_type = t, perm_resource = mp_resource perm_dict,
            perm_description = (case mp_description perm_dict of None \<Rightarrow> [] | Some d \<Rightarrow> d) \<rparr>
          # parse_permissions ps
      | None \<Rightarrow> parse_permissions ps)"

text \<open>
  \<open>_load_plugin_metadata\<close>: reads the manifest without running plugin code, records the
  declared dependencies and version constraints, and builds the basic metadata.
\<close>

definition load_plugin_metadata :: "loader_state \<Rightarrow> string \<Rightarrow> PluginMetadata option \<times> loader_state" where
  "load_plugin_metadata st plugin_name =
     (let d = fs_disk st plugin_name in
      if \<not> is_dir d then (None, st)
      else
        (case find_module_file d of
           None \<Rightarrow> (None, st)
         | Some module_file \<Rightarrow>
             (let manifest_version =
                    (case manifest d of None \<Rightarrow> ''unknown''
                     | Some m \<Rightarrow> (case mf_version m of None \<Rightarrow> ''unknown'' | Some v \<Rightarrow> v));
                  manifest_deps = (case manifest d of None \<Rightarrow> [] | Some m \<Rightarrow> mf_dependencies m);
                  manifest_permissions = (case manifest d of None \<Rightarrow> [] | Some m \<Rightarrow> mf_permissions m);
                  specs = map parse_dependency_spec manifest_deps;
                  dep_names = map fst specs;
                  constraints = collect_constraints specs Map.empty;
                  st' = st\<lparr> declared_dependencies := (declared_dependencies st)(plugin_name \<mapsto> dep_names),
                            version_constraints := (version_constraints st)(plugin_name \<mapsto> constraints) \<rparr>
              in (Some \<lparr> meta_name = plugin_name, meta_version = manifest_version,
                        meta_dependencies = dep_names,
                        meta_permissions = parse_permissions manifest_permissions \<rparr>, st'))))"

text \<open>
  \<open>_create_permission_lock_file\<close> overwrites the lock file of the plugin with the given
  permissions; \<open>_load_permissions_from_lock_file\<close> grants what the lock file states. Both
  raise when the file cannot be written or read.
\<close>

definition create_permission_lock_file ::
  "loader_state \<Rightarrow> string \<Rightarrow> SandboxPermission list \<Rightarrow> py_exception option \<times> loader_state" where
  "create_permission_lock_file st plugin_name perms =
     (let d = fs_disk st plugin_name in
      if \<not> lock_writable d then (Some (OtherException ''cannot write permissions.lock.json''), st)
      else
        (None,
         st\<lparr> fs_disk := (fs_disk st)(plugin_name :=
                d\<lparr> lock_file := Some (LockData
                      (map (\<lambda>perm. \<lparr> mp_type = Some (perm_type perm),
                                       mp_resource = perm_resource perm,
                                       mp_description = Some (perm_description perm) \<rparr>) perms)) \<rparr>) \<rparr>))"

definition load_permissions_from_lock_file ::
  "pylib \<Rightarrow> loader_state \<Rightarrow> string \<Rightarrow> py_exception option \<times> loader_state" where
  "load_permissions_from_lock_file lib st plugin_name =
     (case lock_file (fs_disk st plugin_name) of
        None \<Rightarrow> (None, st)
      | Some LockCorrupt \<Rightarrow> (Some (OtherException ''cannot read permissions.lock.json''), st)
      | Some (LockData perm_data) \<Rightarrow>
          (None,
           st\<lparr> audit_manager := (audit_manager st)\<lparr> permission_manager :=
                  grant_permissions lib permission_engine plugin_name (parse_permissions perm_data)
                    (permission_manager (audit_manager st)) \<rparr> \<rparr>))"

definition plugin_abs_path :: "loader_state \<Rightarrow> string \<Rightarrow> string" where
  "plugin_abs_path st plugin_name = fs_plugin_dir st @ ''/'' @ plugin_name"

text \<open>\<open>audit_manager.set_plugin_root_paths\<close> takes a copy of the loader's table.\<close>

definition set_plugin_root_paths :: "loader_state \<Rightarrow> loader_state" where
  "set_plugin_root_paths st =
     st\<lparr> audit_manager := (audit_manager st)\<lparr> am_plugin_root_paths := plugin_root_paths st \<rparr> \<rparr>"

subsection \<open>Loading one plugin\<close>

text \<open>
  \<open>load_plugin_group\<close>. Every exception inside is caught and answered \<open>None\<close>; the state
  keeps what was done before the raise.
\<close>

definition load_plugin_group :: "pylib \<Rightarrow> loader_state \<Rightarrow> string \<Rightarrow> plugin_instance option \<times> loader_state" where
  "load_plugin_group lib st plugin_name =
     (case find_module_file (fs_disk st plugin_name) of
        None \<Rightarrow> (None, st)
      | Some module_file \<Rightarrow>
          (case load_plugin_directly st plugin_name module_file of
             None \<Rightarrow> (None, st)
           | Some meta_plugin_instance \<Rightarrow>
               if initialize_raises meta_plugin_instance then (None, st)
               else if \<not> is_meta_plugin meta_plugin_instance then (None, st)
               else
                 (case load_plugin_metadata st plugin_name of
                    (None, st1) \<Rightarrow> (None, st1)
                  | (Some metadata, st1) \<Rightarrow>
                      (case create_permission_lock_file st1 (meta_name metadata) (meta_permissions metadata) of
                         (Some e, st2) \<Rightarrow> (None, st2)
                       | (None, st2) \<Rightarrow>
                           (case load_permissions_from_lock_file lib st2 (meta_name metadata) of
                              (Some e, st3) \<Rightarrow> (None, st3)
                            | (None, st3) \<Rightarrow>
                                (let st4 = st3\<lparr> plugin_root_paths := (plugin_root_paths st3)
                                                  (meta_name metadata \<mapsto> plugin_abs_path st3 plugin_name) \<rparr>
                                 in if group_setup_raises meta_plugin_instance then (None, st4)
                                    else
                                      (Some meta_plugin_instance,
                                       st4\<lparr> plugins := (plugins st4)(meta_name metadata \<mapsto> meta_plugin_instance),
                                            plugin_metadata := (plugin_metadata st4)(meta_name metadata \<mapsto> metadata) \<rparr>)))))))"

text \<open>\<open>load_plugin\<close>, gate by gate, in the order of the source.\<close>

definition load_plugin :: "pylib \<Rightarrow> loader_state \<Rightarrow> string \<Rightarrow> plugin_instance option \<times> loader_state" where
  "load_plugin lib st plugin_name =
     (let d = fs_disk st plugin_name in
      if \<not> is_dir d then (None, st)
      else if plugin_name \<notin> registry st then (None, st)
      else if verify_signatures st \<and> \<not> signature_valid d then (None, st)
      else if ''group.yml'' \<in> dir_files d then load_plugin_group lib st plugin_name
      else
        (case find_module_file d of
           None \<Rightarrow> (None, st)
         | Some module_file \<Rightarrow>
             (case load_plugin_metadata st plugin_name of
                (None, st1) \<Rightarrow> (None, st1)
              | (Some metadata, st1) \<Rightarrow>
                  (case load_plugin_directly st1 plugin_name module_file of
                     None \<Rightarrow> (None, st1)
                   | Some plugin_instance \<Rightarrow>
                       (let st2 = set_plugin_root_paths
                                    (st1\<lparr> plugin_root_paths := (plugin_root_paths st1)
                                            (meta_name metadata \<mapsto> plugin_abs_path st1 plugin_name) \<rparr>)
                        in if lock_file d = None then (None, st2)
                           else
                             (case load_permissions_from_lock_file lib st2 (meta_name metadata) of
                                (Some e, st3) \<Rightarrow> (None, st3)
                              | (None, st3) \<Rightarrow>
                                  if initialize_raises plugin_instance then (None, st3)
                                  else
                                    (Some plugin_instance,
                                     st3\<lparr> plugins := (plugins st3)(meta_name metadata \<mapsto> plugin_instance),
                                          plugin_metadata := (plugin_metadata st3)(meta_name metadata \<mapsto> metadata) \<rparr>)))))))"

subsection \<open>Reloading\<close>


subsection \<open>Loading a batch\<close>

text \<open>The metadata pass of \<open>load_all_plugins\<close>: one \<open>_load_plugin_metadata\<close> per candidate.\<close>

fun load_metadata_all :: "loader_state \<Rightarrow> string list \<Rightarrow> PluginMetadata option list \<times> loader_state" where
  "load_metadata_all st [] = ([], st)"
| "load_metadata_all st (name # names) =
     (let (metadata, st1) = load_plugin_metadata st name;
          (results, st2) = load_metadata_all st1 names
      in (metadata # results, st2))"

fun build_graph :: "PluginMetadata option list \<Rightarrow> DependencyResolver \<Rightarrow> DependencyResolver" where
  "build_graph [] r = r"
| "build_graph (None # ms) r = build_graph ms r"
| "build_graph (Some metadata # ms) r =
     build_graph ms (add_plugin (meta_name metadata) (meta_dependencies metadata) r)"

text \<open>
  The loop over \<open>load_order\<close>: a plugin with an unmet dependency is skipped, every other
  one is handed to \<open>load_plugin\<close>, whose failure is only logged.
\<close>

definition load_one ::
  "pylib \<Rightarrow> ('v, 's) packaging \<Rightarrow> loader_state \<Rightarrow> string \<Rightarrow> loader_state" where
  "load_one lib pk st plugin_name =
     (let deps = (case declared_dependencies st plugin_name of None \<Rightarrow> [] | Some ds \<Rightarrow> ds);
          constraints = (case version_constraints st plugin_name of None \<Rightarrow> Map.empty | Some cs \<Rightarrow> cs);
          unmet = fst (unmet_dependencies pk (plugin_metadata st) constraints deps)
      in if unmet \<noteq> [] then st else snd (load_plugin lib st plugin_name))"

fun load_in_order ::
  "pylib \<Rightarrow> ('v, 's) packaging \<Rightarrow> loader_state \<Rightarrow> string list \<Rightarrow> loader_state" where
  "load_in_order lib pk st [] = st"
| "load_in_order lib pk st (plugin_name # names) =
     load_in_order lib pk (load_one lib pk st plugin_name) names"

text \<open>The candidates: directories not starting with \<open>_\<close>, registered, and enabled if a list is set.\<close>

definition candidate_dirs :: "loader_state \<Rightarrow> string list" where
  "candidate_dirs st =
     (let plugin_dirs = filter (\<lambda>n. is_dir (fs_disk st n) \<and> \<not> prefix ''_'' n) (fs_listing st);
          plugin_dirs = filter (\<lambda>n. n \<in> registry st) plugin_dirs
      in if settings_enabled st \<noteq> [] then filter (\<lambda>n. n \<in> set (settings_enabled st)) plugin_dirs
         else plugin_dirs)"

text \<open>
  \<open>load_all_plugins\<close>. The result is the returned dict, or an exception other than
  \<open>ValueError\<close> leaving the function; a \<open>ValueError\<close> of the resolver is caught and the
  empty dict returned at once.
\<close>

definition load_all_plugins ::
  "pylib \<Rightarrow> ('v, 's) packaging \<Rightarrow> loader_state \<Rightarrow>
   ((py_exception + (string \<rightharpoonup> plugin_instance)) \<times> loader_state) option" where
  "load_all_plugins lib pk st =
     (if \<not> fs_plugin_dir_exists st then Some (Inr Map.empty, st)
      else if settings_enabled st = [] \<and> \<not> settings_auto_load st then Some (Inr Map.empty, st)
      else
        (let plugin_dirs = candidate_dirs st in
         if plugin_dirs = [] then
           (let st' = set_plugin_root_paths st in Some (Inr (plugins st'), st'))
         else
           (let (metadata_results, st1) = load_metadata_all st plugin_dirs;
                st2 = st1\<lparr> dependency_resolver := build_graph metadata_results (dependency_resolver st1) \<rparr>
            in case resolve_dependencies (dependency_resolver st2) of
                 None \<Rightarrow> None
               | Some (Inl (ValueError m), r) \<Rightarrow> Some (Inr Map.empty, st2\<lparr> dependency_resolver := r \<rparr>)
               | Some (Inl e, r) \<Rightarrow> Some (Inl e, st2\<lparr> dependency_resolver := r \<rparr>)
               | Some (Inr load_order, r) \<Rightarrow>
                   (let st3 = load_in_order lib pk (st2\<lparr> dependency_resolver := r \<rparr>) load_order;
                        st4 = set_plugin_root_paths st3
                    in Some (Inr (plugins st4), st4)))))"

section \<open>Request context (\<open>RequestContext\<close> in \<open>app/plugins/interface.py\<close>)\<close>

text \<open>
  \<open>request_data\<close> and \<open>response_data\<close> are dicts. The keys the runner itself reads or
  writes have a field each, with the type the runner gives them (\<open>errors\<close> is a list of
  \<open>{plugin, error}\<close> entries); \<open>rs_other\<close> and \<open>rq_other\<close> hold whatever else is stored.
\<close>

record request_data =
  rq_trace :: bool
  rq_request_id :: string
  rq_user_id :: "string option"
  rq_other :: "string \<rightharpoonup> string"

record response_data =
  rs_error :: "string option"
  rs_errors :: "(string \<times> string) list option"
  rs_trace :: "string list option"
  rs_other :: "string \<rightharpoonup> string"


record RequestContext =
  rc_request_data :: request_data
  rc_response_data :: response_data
  user_id :: "string option"
  current_plugin_name :: "string option"
  is_short_circuited :: bool
  trace_log :: "string list option"






section \<open>Chain runner (\<open>ChainRunner\<close> in \<open>app/core/chain_runner.py\<close>)\<close>

subsection \<open>Plugins as the runner sees them\<close>

text \<open>
  A handler is third-party code. It is described by the steps it takes: it may change the
  context, branch on it, ask whether a continuation was given, call the continuation, and
  return or raise.
\<close>

datatype handler =
    Done
  | Mutate "RequestContext \<Rightarrow> RequestContext" handler
  | Branch "RequestContext \<Rightarrow> bool" handler handler
  | IfNext handler handler
  | CallNext handler
  | Raise string

record chain_def =
  cd_pattern :: string
  cd_description :: string
  cd_plugins :: "string list"

record runner_plugin =
  rp_is_meta :: bool
  rp_chains :: "string \<rightharpoonup> chain_def"
  rp_subplugins :: "string \<rightharpoonup> handler"
  rp_handle :: handler

record ChainRunner =
  cr_plugins :: "string \<rightharpoonup> runner_plugin"
  routes :: "string \<rightharpoonup> (string \<rightharpoonup> (string \<rightharpoonup> string) list)"
  chain_cache :: "string \<rightharpoonup> string list"

definition clear_cache :: "ChainRunner \<Rightarrow> ChainRunner" where
  "clear_cache cr = cr\<lparr> chain_cache := Map.empty \<rparr>"


subsection \<open>Resolution\<close>









subsection \<open>Execution\<close>







subsection \<open>A run\<close>





section \<open>Concrete instances\<close>

text \<open>
  A small stand-in for the version library, used where a statement is evaluated at a
  concrete input: versions and specifiers are numbers, \<open>''1.2.0''\<close> is the only version
  that parses and \<open>''>=1.0''\<close> the only specifier that does.
\<close>

definition demo_packaging :: "(nat, nat) packaging" where
  "demo_packaging =
     \<lparr> parse_version = (\<lambda>s. if s = ''1.2.0'' then Inr 12 else Inl (InvalidVersion s)),
       SpecifierSet = (\<lambda>s. if s = ''>=1.0'' then Inr 10 else Inl (InvalidSpecifier s)),
       spec_contains = (\<lambda>s v. s \<le> v) \<rparr>"

definition demo_metadata :: "string \<rightharpoonup> PluginMetadata" where
  "demo_metadata =
     [''core'' \<mapsto> \<lparr> meta_name = ''core'', meta_version = ''1.2.0'',
                     meta_dependencies = [], meta_permissions = [] \<rparr>]"

text \<open>
  A stand-in for the library, for evaluation at concrete inputs: the working directory is
  \<open>/srv/prism\<close>, \<open>abspath\<close> prepends it to a relative path and does not normalise (the
  inputs used are already normal), and \<open>fnmatch\<close> knows \<open>*\<close> and \<open>?\<close>.
\<close>

fun glob_match :: "string \<Rightarrow> string \<Rightarrow> bool" where
  "glob_match [] name = (name = [])"
| "glob_match (p # ps) [] = (p = CHR ''*'' \<and> glob_match ps [])"
| "glob_match (p # ps) (c # cs) =
     (if p = CHR ''*'' then glob_match ps (c # cs) \<or> glob_match (p # ps) cs
      else (p = CHR ''?'' \<or> p = c) \<and> glob_match ps cs)"

definition demo_lib :: pylib where
  "demo_lib =
     \<lparr> fnmatch = (\<lambda>name pat. glob_match pat name),
       abspath = (\<lambda>p. Inr (if prefix ''/'' p then p else ''/srv/prism/'' @ p)),
       getcwd = Inr ''/srv/prism'',
       str_of = (\<lambda>v. ''<object>'') \<rparr>"

text \<open>
  A manager in which plugin \<open>p\<close>, installed under \<open>/srv/prism/plugins/p\<close>, holds the
  capabilities given, and nothing has been logged.
\<close>

definition demo_manager :: "string list \<Rightarrow> AuditHookManager" where
  "demo_manager granted =
     \<lparr> permission_manager =
         \<lparr> granted_permissions = [''p'' \<mapsto> granted], permission_violations = Map.empty \<rparr>,
       am_plugin_root_paths = [''p'' \<mapsto> ''/srv/prism/plugins/p''] \<rparr>"







text \<open>
  A loader with two registered plugin directories. \<open>echo\<close> is a plain plugin that was
  loaded earlier and whose lock file has since gone; \<open>suite\<close> is a group (it has a
  \<open>group.yml\<close>) that was never installed: it has no lock file.
\<close>

definition demo_instance :: "bool \<Rightarrow> plugin_instance" where
  "demo_instance meta =
     \<lparr> is_meta_plugin = meta, initialize_raises = False, shutdown_raises = False,
       group_setup_raises = False \<rparr>"

definition demo_manifest :: manifest where
  "demo_manifest =
     \<lparr> mf_version = Some ''1.0.0'', mf_dependencies = [],
       mf_permissions = [\<lparr> mp_type = Some ''system'', mp_resource = Some ''subprocess'',
                           mp_description = None \<rparr>] \<rparr>"

definition demo_dir :: "bool \<Rightarrow> plugin_dir" where
  "demo_dir grouped =
     \<lparr> is_dir = True,
       dir_files = (if grouped then {''plugin.py'', ''group.yml''} else {''plugin.py''}),
       manifest = Some demo_manifest, lock_file = None, lock_writable = True,
       import_module = (\<lambda>f. Instance (demo_instance grouped)), signature_valid = True \<rparr>"

definition demo_disk :: "string \<Rightarrow> plugin_dir" where
  "demo_disk name =
     (if name = ''suite'' then demo_dir True
      else if name = ''echo'' then demo_dir False
      else (demo_dir False)\<lparr> is_dir := False \<rparr>)"

definition demo_echo_metadata :: PluginMetadata where
  "demo_echo_metadata =
     \<lparr> meta_name = ''echo'', meta_version = ''1.0.0'', meta_dependencies = [],
       meta_permissions = [] \<rparr>"

definition demo_loader :: loader_state where
  "demo_loader =
     \<lparr> plugins = [''echo'' \<mapsto> demo_instance False],
       plugin_metadata = [''echo'' \<mapsto> demo_echo_metadata],
       http_client = True,
       dependency_resolver = DependencyResolver_init,
       audit_manager = \<lparr> permission_manager = SandboxPermissionManager_init,
                         am_plugin_root_paths = Map.empty \<rparr>,
       verify_signatures = False,
       declared_dependencies = Map.empty,
       version_constraints = Map.empty,
       plugin_root_paths = [''echo'' \<mapsto> ''/srv/prism/plugins/echo''],
       fs_plugin_dir = ''/srv/prism/plugins'',
       fs_plugin_dir_exists = True,
       fs_listing = [''echo'', ''suite''],
       fs_disk = demo_disk,
       registry = {''echo'', ''suite''},
       settings_enabled = [],
       settings_auto_load = True \<rparr>"

text \<open>
  Three registered plugins whose manifests declare \<open>a\<close> \<open>\<rightarrow>\<close> \<open>b\<close> \<open>\<rightarrow>\<close> \<open>c\<close> \<open>\<rightarrow>\<close> \<open>a\<close>, each with a
  lock file, in a loader that has loaded nothing yet.
\<close>

definition demo_cycle_graph :: dep_graph where
  "demo_cycle_graph = [(''a'', [''b'']), (''b'', [''c'']), (''c'', [''a''])]"

definition demo_cycle_dir :: "string \<Rightarrow> plugin_dir" where
  "demo_cycle_dir dep =
     \<lparr> is_dir = True, dir_files = {''plugin.py''},
       manifest = Some \<lparr> mf_version = Some ''1.0.0'', mf_dependencies = [dep], mf_permissions = [] \<rparr>,
       lock_file = Some (LockData []), lock_writable = True,
       import_module = (\<lambda>f. Instance (demo_instance False)), signature_valid = True \<rparr>"

definition demo_cycle_disk :: "string \<Rightarrow> plugin_dir" where
  "demo_cycle_disk name =
     (if name = ''a'' then demo_cycle_dir ''b''
      else if name = ''b'' then demo_cycle_dir ''c''
      else if name = ''c'' then demo_cycle_dir ''a''
      else (demo_cycle_dir [])\<lparr> is_dir := False \<rparr>)"

definition demo_cycle_loader :: loader_state where
  "demo_cycle_loader =
     demo_loader\<lparr> plugins := Map.empty, plugin_metadata := Map.empty, plugin_root_paths := Map.empty,
                  fs_listing := [''a'', ''b'', ''c''], fs_disk := demo_cycle_disk,
                  registry := {''a'', ''b'', ''c''} \<rparr>"

section \<open>Results\<close>

subsection \<open>Version constraints\<close>

lemma version_satisfies_unparseable:
  assumes "constraint \<noteq> []" and "unparseable pk version constraint"
  shows "version_satisfies pk version constraint =
           (True, [(LWarning, ''Could not validate version constraint'')])"
  using assms
  by (auto simp: version_satisfies_def unparseable_def
           split: sum.splits py_exception.splits)

lemma unmet_dependencies_permissive:
  assumes "\<forall>dep \<in> set deps. \<exists>md. loaded dep = Some md \<and>
             (case constraints dep of None \<Rightarrow> True
              | Some c \<Rightarrow> c = [] \<or> unparseable pk (meta_version md) c)"
  shows "fst (unmet_dependencies pk loaded constraints deps) = []"
  using assms
proof (induction deps)
  case Nil
  then show ?case by simp
next
  case (Cons dep deps)
  then obtain md where md: "loaded dep = Some md"
    and c: "case constraints dep of None \<Rightarrow> True
            | Some c \<Rightarrow> c = [] \<or> unparseable pk (meta_version md) c"
    by auto
  from Cons have ih: "fst (unmet_dependencies pk loaded constraints deps) = []"
    by simp
  show ?case
  proof (cases "constraints dep")
    case None
    with md ih show ?thesis by (simp add: case_prod_beta)
  next
    case (Some cstr)
    show ?thesis
    proof (cases "cstr = []")
      case True
      with md ih Some show ?thesis by (simp add: case_prod_beta)
    next
      case False
      with c Some have "unparseable pk (meta_version md) cstr" by simp
      with False have "version_satisfies pk (meta_version md) cstr =
          (True, [(LWarning, ''Could not validate version constraint'')])"
        by (rule version_satisfies_unparseable)
      with md ih Some False show ?thesis by (simp add: case_prod_beta)
    qed
  qed
qed

subsection \<open>Dependency resolver\<close>

lemma deps_first_snoc:
  assumes "deps_first g xs"
    and "\<forall>d \<in> set (deps_of g x). d \<in> graph_keys g \<longrightarrow> d \<in> set xs"
  shows "deps_first g (xs @ [x])"
  unfolding deps_first_def
proof (intro allI impI ballI)
  fix i d
  assume i: "i < length (xs @ [x])" and d: "d \<in> set (deps_of g ((xs @ [x]) ! i))"
    and k: "d \<in> graph_keys g"
  show "d \<in> set (take i (xs @ [x]))"
  proof (cases "i < length xs")
    case True
    with assms(1) d k have "d \<in> set (take i xs)"
      by (simp add: deps_first_def nth_append)
    with True show ?thesis by simp
  next
    case False
    with i have "i = length xs" by simp
    with d k assms(2) show ?thesis by simp
  qed
qed

lemma visit_success:
  "visit g n node st = Some (None, st') \<Longrightarrow> visit_inv g st \<Longrightarrow> node \<in> graph_keys g \<Longrightarrow>
     visit_inv g st' \<and> temp_mark st' = temp_mark st \<and> resolved st \<subseteq> resolved st' \<and>
     node \<in> resolved st'"
  "visit_deps g n ds st = Some (None, st') \<Longrightarrow> visit_inv g st \<Longrightarrow>
     visit_inv g st' \<and> temp_mark st' = temp_mark st \<and> resolved st \<subseteq> resolved st' \<and>
     (\<forall>d \<in> set ds. d \<in> graph_keys g \<longrightarrow> d \<in> resolved st')"
proof (induction g n node st and g n ds st arbitrary: st' and st' rule: visit_visit_deps.induct)
  case (1 g node st)
  then show ?case by simp
next
  case (2 g n node st)
  show ?case
  proof (cases "node \<in> temp_mark st")
    case True
    with "2.prems" show ?thesis by simp
  next
    case nt: False
    show ?thesis
    proof (cases "node \<in> resolved st")
      case True
      with nt "2.prems" show ?thesis by auto
    next
      case nr: False
      let ?st0 = "st\<lparr> temp_mark := insert node (temp_mark st) \<rparr>"
      from nt nr "2.prems"(1) obtain st1 where
        v: "visit_deps g n (deps_of g node) ?st0 = Some (None, st1)"
        and st': "st' = st1\<lparr> temp_mark := temp_mark st1 - {node},
                               resolved := insert node (resolved st1),
                               order := order st1 @ [node] \<rparr>"
        by (auto split: option.splits prod.splits)
      have inv0: "visit_inv g ?st0"
        using "2.prems"(2,3) nr by (auto simp: visit_inv_def)
      from "2.IH"[OF nt nr v inv0]
      have inv1: "visit_inv g st1" and tm1: "temp_mark st1 = insert node (temp_mark st)"
        and mono: "resolved st \<subseteq> resolved st1"
        and deps: "\<forall>d \<in> set (deps_of g node). d \<in> graph_keys g \<longrightarrow> d \<in> resolved st1"
        by simp_all
      have nn: "node \<notin> resolved st1" using inv1 tm1 by (auto simp: visit_inv_def)
      have df: "deps_first g (order st1 @ [node])"
        using inv1 deps by (intro deps_first_snoc) (auto simp: visit_inv_def)
      have "visit_inv g st'"
        using inv1 nn df "2.prems"(3) unfolding st' visit_inv_def by auto
      moreover have "temp_mark st' = temp_mark st" using tm1 nt by (simp add: st')
      moreover have "resolved st \<subseteq> resolved st'" using mono by (auto simp: st')
      moreover have "node \<in> resolved st'" by (simp add: st')
      ultimately show ?thesis by blast
    qed
  qed
next
  case (3 g n st)
  then show ?case by simp
next
  case (4 g n dependency ds st)
  show ?case
  proof (cases "dependency \<in> graph_keys g")
    case False
    with "4.prems" have "visit_deps g n ds st = Some (None, st')" by simp
    from "4.IH"(1)[OF False this "4.prems"(2)] False show ?thesis by auto
  next
    case True
    with "4.prems"(1) obtain st1 where
      v1: "visit g n dependency st = Some (None, st1)"
      and v2: "visit_deps g n ds st1 = Some (None, st')"
      by (auto split: option.splits prod.splits)
    from "4.IH"(2)[OF _ v1 "4.prems"(2) True] True
    have a: "visit_inv g st1" "temp_mark st1 = temp_mark st" "resolved st \<subseteq> resolved st1"
      "dependency \<in> resolved st1" by simp_all
    from "4.IH"(3)[OF _ v1 _ _ v2 a(1)] True
    have b: "visit_inv g st'" "temp_mark st' = temp_mark st1" "resolved st1 \<subseteq> resolved st'"
      "\<forall>d \<in> set ds. d \<in> graph_keys g \<longrightarrow> d \<in> resolved st'" by simp_all
    from a b show ?thesis by auto
  qed
qed


text \<open>
  Termination. A call that returns leaves \<open>temp_mark\<close> as it found it, whatever the state;
  so the depth of the recursion is bounded by the number of keys not yet marked, and the
  fuel never runs out.
\<close>

lemma visit_keeps_temp_mark:
  "visit g n node st = Some (None, st') \<Longrightarrow> temp_mark st' = temp_mark st"
  "visit_deps g n ds st = Some (None, st') \<Longrightarrow> temp_mark st' = temp_mark st"
proof (induction g n node st and g n ds st arbitrary: st' and st' rule: visit_visit_deps.induct)
  case (1 g node st)
  then show ?case by simp
next
  case (2 g n node st)
  show ?case
  proof (cases "node \<in> temp_mark st \<or> node \<in> resolved st")
    case True
    with "2.prems" show ?thesis by (auto split: if_splits)
  next
    case False
    then have nt: "node \<notin> temp_mark st" and nr: "node \<notin> resolved st" by simp_all
    from nt nr "2.prems" obtain st1 where
      v: "visit_deps g n (deps_of g node) (st\<lparr> temp_mark := insert node (temp_mark st) \<rparr>) =
            Some (None, st1)"
      and st': "temp_mark st' = temp_mark st1 - {node}"
      by (auto split: option.splits prod.splits)
    from "2.IH"[OF nt nr v] st' nt show ?thesis by simp
  qed
next
  case (3 g n st)
  then show ?case by simp
next
  case (4 g n dependency ds st)
  show ?case
  proof (cases "dependency \<in> graph_keys g")
    case False
    with "4.prems" "4.IH"(1) show ?thesis by simp
  next
    case True
    with "4.prems" obtain st1 where
      v1: "visit g n dependency st = Some (None, st1)"
      and v2: "visit_deps g n ds st1 = Some (None, st')"
      by (auto split: option.splits prod.splits)
    from "4.IH"(2)[OF _ v1] "4.IH"(3)[OF _ v1 _ _ v2] True show ?thesis by simp
  qed
qed

lemma visit_fuel:
  "node \<in> graph_keys g \<Longrightarrow> card (graph_keys g - temp_mark st) < n \<Longrightarrow>
     visit g n node st \<noteq> None"
  "card (graph_keys g - temp_mark st) < n \<Longrightarrow> visit_deps g n ds st \<noteq> None"
proof (induction g n node st and g n ds st rule: visit_visit_deps.induct)
  case (1 g node st)
  then show ?case by simp
next
  case (2 g n node st)
  show ?case
  proof (cases "node \<in> temp_mark st \<or> node \<in> resolved st")
    case True
    then show ?thesis by auto
  next
    case False
    then have nt: "node \<notin> temp_mark st" and nr: "node \<notin> resolved st" by simp_all
    let ?st0 = "st\<lparr> temp_mark := insert node (temp_mark st) \<rparr>"
    have fin: "finite (graph_keys g - temp_mark st)" by (simp add: graph_keys_def)
    have eq: "graph_keys g - temp_mark ?st0 = (graph_keys g - temp_mark st) - {node}"
      by auto
    have "node \<in> graph_keys g - temp_mark st" using "2.prems"(1) nt by simp
    with fin have "card ((graph_keys g - temp_mark st) - {node}) < card (graph_keys g - temp_mark st)"
      by (rule card_Diff1_less)
    with eq have "card (graph_keys g - temp_mark ?st0) < card (graph_keys g - temp_mark st)"
      by simp
    with "2.prems"(2) have "card (graph_keys g - temp_mark ?st0) < n" by simp
    from "2.IH"[OF nt nr this] nt nr show ?thesis
      by (auto split: option.splits prod.splits)
  qed
next
  case (3 g n st)
  then show ?case by simp
next
  case (4 g n dependency ds st)
  show ?case
  proof (cases "dependency \<in> graph_keys g")
    case False
    with "4.IH"(1)[OF False "4.prems"] show ?thesis by simp
  next
    case True
    from "4.IH"(2)[OF _ True "4.prems"] True
    obtain ex st1 where v1: "visit g n dependency st = Some (ex, st1)" by auto
    show ?thesis
    proof (cases ex)
      case (Some e)
      with v1 True show ?thesis by simp
    next
      case None
      with v1 visit_keeps_temp_mark(1) have "temp_mark st1 = temp_mark st" by blast
      with "4.prems" have "card (graph_keys g - temp_mark st1) < n" by simp
      from "4.IH"(3)[OF _ _ _ _ this] v1 None True show ?thesis by auto
    qed
  qed
qed

lemma visit_plugins_returns:
  "set ps \<subseteq> graph_keys g \<Longrightarrow> card (graph_keys g - temp_mark st) < n \<Longrightarrow>
     visit_plugins g n ps st \<noteq> None"
proof (induction ps arbitrary: st)
  case Nil
  then show ?case by simp
next
  case (Cons plugin ps)
  show ?case
  proof (cases "plugin \<in> resolved st")
    case True
    with Cons show ?thesis by simp
  next
    case False
    from Cons.prems have k: "plugin \<in> graph_keys g" by simp
    from visit_fuel(1)[OF k Cons.prems(2)]
    obtain ex st1 where v1: "visit g n plugin st = Some (ex, st1)" by auto
    show ?thesis
    proof (cases ex)
      case (Some e)
      with v1 False show ?thesis by simp
    next
      case None
      with v1 visit_keeps_temp_mark(1) have "temp_mark st1 = temp_mark st" by blast
      with Cons.prems(2) have "card (graph_keys g - temp_mark st1) < n" by simp
      from Cons.IH[OF _ this] Cons.prems(1) v1 None False show ?thesis by simp
    qed
  qed
qed

lemma resolve_dependencies_returns: "resolve_dependencies r \<noteq> None"
proof -
  let ?g = "dependency_graph r"
  have "card (graph_keys ?g) \<le> length ?g"
    using card_length[of "map fst ?g"] by (simp add: graph_keys_def)
  then have "card (graph_keys ?g - {}) < Suc (length ?g)" by simp
  from visit_plugins_returns[of "map fst ?g" ?g "\<lparr> resolved = {}, temp_mark = {}, order = resolved_order r \<rparr>"
         "Suc (length ?g)"] this
  show ?thesis
    by (auto simp: resolve_dependencies_def Let_def graph_keys_def split: option.splits prod.splits)
qed

text \<open>Soundness of the cycle report: every marked plugin reaches the plugin being visited.\<close>

lemma visit_raises_cycle:
  "visit g n node st = Some (Some e, st') \<Longrightarrow> visit_inv g st \<Longrightarrow> node \<in> graph_keys g \<Longrightarrow>
     (\<forall>t \<in> temp_mark st. (t, node) \<in> (dep_edges g)\<^sup>+) \<Longrightarrow> cyclic g"
  "visit_deps g n ds st = Some (Some e, st') \<Longrightarrow> visit_inv g st \<Longrightarrow>
     (\<forall>t \<in> temp_mark st. \<forall>d \<in> set ds. d \<in> graph_keys g \<longrightarrow> (t, d) \<in> (dep_edges g)\<^sup>+) \<Longrightarrow>
     cyclic g"
proof (induction g n node st and g n ds st arbitrary: st' and st' rule: visit_visit_deps.induct)
  case (1 g node st)
  then show ?case by simp
next
  case (2 g n node st)
  show ?case
  proof (cases "node \<in> temp_mark st")
    case True
    with "2.prems"(4) show ?thesis by (auto simp: cyclic_def)
  next
    case nt: False
    show ?thesis
    proof (cases "node \<in> resolved st")
      case True
      with nt "2.prems"(1) show ?thesis by simp
    next
      case nr: False
      let ?st0 = "st\<lparr> temp_mark := insert node (temp_mark st) \<rparr>"
      from nt nr "2.prems"(1) have
        v: "visit_deps g n (deps_of g node) ?st0 = Some (Some e, st')"
        by (auto split: option.splits prod.splits)
      have inv0: "visit_inv g ?st0"
        using "2.prems"(2,3) nr by (auto simp: visit_inv_def)
      have edge: "\<And>d. d \<in> set (deps_of g node) \<Longrightarrow> d \<in> graph_keys g \<Longrightarrow>
                    (node, d) \<in> dep_edges g"
        using "2.prems"(3) by (simp add: dep_edges_def)
      have "\<forall>t \<in> temp_mark ?st0. \<forall>d \<in> set (deps_of g node). d \<in> graph_keys g \<longrightarrow>
              (t, d) \<in> (dep_edges g)\<^sup>+"
      proof (intro ballI impI)
        fix t d
        assume t: "t \<in> temp_mark ?st0" and d: "d \<in> set (deps_of g node)" "d \<in> graph_keys g"
        from edge[OF d] have nd: "(node, d) \<in> dep_edges g" .
        show "(t, d) \<in> (dep_edges g)\<^sup>+"
        proof (cases "t = node")
          case True
          with nd show ?thesis by auto
        next
          case False
          with t "2.prems"(4) have "(t, node) \<in> (dep_edges g)\<^sup>+" by simp
          then show ?thesis using nd by (rule trancl_into_trancl)
        qed
      qed
      from "2.IH"[OF nt nr v inv0 this] show ?thesis .
    qed
  qed
next
  case (3 g n st)
  then show ?case by simp
next
  case (4 g n dependency ds st)
  show ?case
  proof (cases "dependency \<in> graph_keys g")
    case False
    with "4.prems"(1) have v: "visit_deps g n ds st = Some (Some e, st')" by simp
    from "4.IH"(1)[OF False v "4.prems"(2)] "4.prems"(3) show ?thesis by simp
  next
    case True
    have p1: "\<forall>t \<in> temp_mark st. (t, dependency) \<in> (dep_edges g)\<^sup>+"
      using "4.prems"(3) True by simp
    from visit_fuel(1) obtain ex st1 where v1: "visit g n dependency st = Some (ex, st1)"
      using "4.prems"(1) True by (auto split: option.splits)
    show ?thesis
    proof (cases ex)
      case (Some e1)
      with v1 "4.prems"(1) True have "visit g n dependency st = Some (Some e, st')" by simp
      from "4.IH"(2)[OF _ this "4.prems"(2) True p1] True show ?thesis by simp
    next
      case None
      with v1 visit_success(1)[OF _ "4.prems"(2) True]
      have a: "visit_inv g st1" "temp_mark st1 = temp_mark st" by auto
      from v1 None "4.prems"(1) True have v2: "visit_deps g n ds st1 = Some (Some e, st')"
        by simp
      have "\<forall>t \<in> temp_mark st1. \<forall>d \<in> set ds. d \<in> graph_keys g \<longrightarrow> (t, d) \<in> (dep_edges g)\<^sup>+"
        using "4.prems"(3) a(2) by simp
      from "4.IH"(3)[OF _ _ _ _ v2 a(1) this] v1 None True show ?thesis by auto
    qed
  qed
qed


lemma visit_plugins_props:
  assumes "visit_inv g st" "temp_mark st = {}" "set ps \<subseteq> graph_keys g"
    "card (graph_keys g) < n"
  shows "\<exists>ex st'. visit_plugins g n ps st = Some (ex, st') \<and>
           (case ex of
              None \<Rightarrow> visit_inv g st' \<and> temp_mark st' = {} \<and> resolved st \<subseteq> resolved st' \<and>
                       set ps \<subseteq> resolved st'
            | Some e \<Rightarrow> cyclic g)"
  using assms
proof (induction ps arbitrary: st)
  case Nil
  then show ?case by simp
next
  case (Cons plugin ps)
  show ?case
  proof (cases "plugin \<in> resolved st")
    case True
    from Cons.IH[OF Cons.prems(1,2) _ Cons.prems(4)] Cons.prems(3)
    obtain ex st' where r: "visit_plugins g n ps st = Some (ex, st')"
      "case ex of
         None \<Rightarrow> visit_inv g st' \<and> temp_mark st' = {} \<and> resolved st \<subseteq> resolved st' \<and>
                  set ps \<subseteq> resolved st'
       | Some e \<Rightarrow> cyclic g" by auto
    with True show ?thesis by (cases ex) auto
  next
    case False
    from Cons.prems(3) have k: "plugin \<in> graph_keys g" by simp
    from Cons.prems(2,4) have c: "card (graph_keys g - temp_mark st) < n" by simp
    from visit_fuel(1)[OF k c]
    obtain ex1 st1 where v1: "visit g n plugin st = Some (ex1, st1)" by auto
    show ?thesis
    proof (cases ex1)
      case (Some e)
      have "\<forall>t \<in> temp_mark st. (t, plugin) \<in> (dep_edges g)\<^sup>+" using Cons.prems(2) by simp
      with v1 Some visit_raises_cycle(1)[OF _ Cons.prems(1) k] have "cyclic g" by blast
      with v1 Some False show ?thesis by simp
    next
      case None
      with v1 visit_success(1)[OF _ Cons.prems(1) k]
      have a: "visit_inv g st1" "temp_mark st1 = temp_mark st" "resolved st \<subseteq> resolved st1"
        "plugin \<in> resolved st1" by auto
      from a(2) Cons.prems(2) have t1: "temp_mark st1 = {}" by simp
      from Cons.IH[OF a(1) t1 _ Cons.prems(4)] Cons.prems(3)
      obtain ex st' where r: "visit_plugins g n ps st1 = Some (ex, st')"
        "case ex of
           None \<Rightarrow> visit_inv g st' \<and> temp_mark st' = {} \<and> resolved st1 \<subseteq> resolved st' \<and>
                    set ps \<subseteq> resolved st'
         | Some e \<Rightarrow> cyclic g" by auto
      with v1 None False a show ?thesis by (cases ex) auto
    qed
  qed
qed

lemma topological_edge_earlier:
  assumes "topological g xs" and "(a, b) \<in> (dep_edges g)\<^sup>+"
  shows "\<exists>i j. i < length xs \<and> j < i \<and> xs ! i = a \<and> xs ! j = b"
  using assms(2)
proof (induction rule: trancl.induct)
  case (r_into_trancl a b)
  from assms(1) have s: "set xs = graph_keys g" and df: "deps_first g xs"
    by (simp_all add: topological_def)
  from r_into_trancl have "a \<in> graph_keys g" "b \<in> graph_keys g" "b \<in> set (deps_of g a)"
    by (simp_all add: dep_edges_def)
  from \<open>a \<in> graph_keys g\<close> s have "a \<in> set xs" by simp
  then obtain i where i: "i < length xs" "xs ! i = a" by (auto simp: in_set_conv_nth)
  with df \<open>b \<in> set (deps_of g a)\<close> \<open>b \<in> graph_keys g\<close> have "b \<in> set (take i xs)"
    by (auto simp: deps_first_def)
  then obtain j where "j < length (take i xs)" "take i xs ! j = b"
    by (auto simp: in_set_conv_nth)
  with i have "j < i" "xs ! j = b" by simp_all
  with i show ?case by blast
next
  case (trancl_into_trancl a b c)
  then obtain i j where ij: "i < length xs" "j < i" "xs ! i = a" "xs ! j = b" by blast
  from assms(1) have s: "set xs = graph_keys g" and df: "deps_first g xs"
    and dist: "distinct xs" by (simp_all add: topological_def)
  from trancl_into_trancl(2) have "c \<in> graph_keys g" "c \<in> set (deps_of g b)"
    by (simp_all add: dep_edges_def)
  with df ij have "c \<in> set (take j xs)" by (auto simp: deps_first_def)
  then obtain k where "k < length (take j xs)" "take j xs ! k = c"
    by (auto simp: in_set_conv_nth)
  with ij have "k < j" "xs ! k = c" by simp_all
  with ij show ?case by (intro exI[of _ i] exI[of _ k]) simp
qed

lemma topological_acyclic:
  assumes "topological g xs"
  shows "\<not> cyclic g"
proof
  assume "cyclic g"
  then obtain x where "(x, x) \<in> (dep_edges g)\<^sup>+" by (auto simp: cyclic_def)
  from topological_edge_earlier[OF assms this]
  obtain i j where "i < length xs" "j < i" "xs ! i = x" "xs ! j = x" by blast
  moreover from assms have "distinct xs" by (simp add: topological_def)
  ultimately show False by (auto simp: distinct_conv_nth)
qed

lemma resolve_dependencies_props:
  assumes "resolved_order r = []"
  shows "\<exists>res r'. resolve_dependencies r = Some (res, r') \<and>
           (case res of
              Inr xs \<Rightarrow> topological (dependency_graph r) xs \<and> \<not> cyclic (dependency_graph r) \<and>
                        resolved_order r' = xs
            | Inl e \<Rightarrow> cyclic (dependency_graph r))"
proof -
  let ?g = "dependency_graph r"
  let ?st = "\<lparr> resolved = {}, temp_mark = {}, order = resolved_order r \<rparr>"
  have inv: "visit_inv ?g ?st" using assms by (simp add: visit_inv_def deps_first_def)
  have c: "card (graph_keys ?g) < Suc (length ?g)"
    using card_length[of "map fst ?g"] by (simp add: graph_keys_def less_Suc_eq_le)
  from visit_plugins_props[OF inv _ _ c, of "map fst ?g"]
  obtain ex st' where v: "visit_plugins ?g (Suc (length ?g)) (map fst ?g) ?st = Some (ex, st')"
    and p: "case ex of
              None \<Rightarrow> visit_inv ?g st' \<and> temp_mark st' = {} \<and> resolved ?st \<subseteq> resolved st' \<and>
                       set (map fst ?g) \<subseteq> resolved st'
            | Some e \<Rightarrow> cyclic ?g"
    by (auto simp: graph_keys_def)
  show ?thesis
  proof (cases ex)
    case (Some e)
    with v p show ?thesis by (simp add: resolve_dependencies_def Let_def)
  next
    case None
    with p have "topological ?g (order st')"
      by (auto simp: topological_def visit_inv_def graph_keys_def)
    with topological_acyclic[OF this] v None show ?thesis
      by (simp add: resolve_dependencies_def Let_def)
  qed
qed

subsection \<open>Chain runner\<close>
























subsection \<open>Plugin loader\<close>

lemma load_plugin_metadata_frame:
  assumes "load_plugin_metadata st n = (r, st')"
  shows "plugins st' = plugins st" "fs_disk st' = fs_disk st" "plugin_metadata st' = plugin_metadata st"
    "http_client st' = http_client st" "\<And>md. r = Some md \<Longrightarrow> meta_name md = n"
  using assms
  by (auto simp: load_plugin_metadata_def Let_def split: if_splits option.splits)





lemma set_plugin_root_paths_frame:
  "plugins (set_plugin_root_paths st) = plugins st"
  "fs_disk (set_plugin_root_paths st) = fs_disk st"
  "plugin_metadata (set_plugin_root_paths st) = plugin_metadata st"
  by (simp_all add: set_plugin_root_paths_def)







text \<open>
  Claim C1, on the plain path: a directory without \<open>group.yml\<close> and without a lock file is
  never loaded, and the disk is left as it was (lemma \<open>load_plugin_plain\<close> above). On the
  group path the claim fails: for the registered group \<open>suite\<close>, which has no lock file,
  \<open>load_plugin\<close> returns the instance, adds it to the loaded set, and the loader itself
  has written the lock file from the permissions the manifest asks for.
\<close>

theorem group_loads_without_lock_file:
  "lock_file (fs_disk demo_loader ''suite'') = None \<and>
   plugins demo_loader ''suite'' = None \<and>
   fst (load_plugin demo_lib demo_loader ''suite'') = Some (demo_instance True) \<and>
   plugins (snd (load_plugin demo_lib demo_loader ''suite'')) ''suite'' = Some (demo_instance True) \<and>
   lock_file (fs_disk (snd (load_plugin demo_lib demo_loader ''suite'')) ''suite'') =
     Some (LockData [\<lparr> mp_type = Some ''system'', mp_resource = Some ''subprocess'',
                         mp_description = Some [] \<rparr>])"
  by (simp add: load_plugin_def load_plugin_group_def demo_loader_def demo_disk_def demo_dir_def
      find_module_file_def load_plugin_directly_def demo_instance_def load_plugin_metadata_def
      create_permission_lock_file_def load_permissions_from_lock_file_def Let_def demo_manifest_def)

subsection \<open>Batch loading and the dependency order\<close>

lemma visit_raises_ValueError:
  "visit g n node st = Some (Some e, st') \<Longrightarrow> \<exists>m. e = ValueError m"
  "visit_deps g n ds st = Some (Some e, st') \<Longrightarrow> \<exists>m. e = ValueError m"
  by (induction g n node st and g n ds st arbitrary: st' and st' rule: visit_visit_deps.induct)
     (auto split: if_splits option.splits prod.splits)

lemma visit_plugins_raises_ValueError:
  "visit_plugins g n ps st = Some (Some e, st') \<Longrightarrow> \<exists>m. e = ValueError m"
  by (induction ps arbitrary: st)
     (auto split: if_splits option.splits prod.splits dest: visit_raises_ValueError(1))

lemma resolve_dependencies_raises_ValueError:
  "resolve_dependencies r = Some (Inl e, r') \<Longrightarrow> \<exists>m. e = ValueError m"
  by (auto simp: resolve_dependencies_def Let_def split: option.splits prod.splits
           dest: visit_plugins_raises_ValueError)

lemma load_metadata_all_plugins:
  "load_metadata_all st names = (ms, st') \<Longrightarrow> plugins st' = plugins st"
proof (induction names arbitrary: st ms st')
  case Nil
  then show ?case by simp
next
  case (Cons n names)
  obtain m st1 where m: "load_plugin_metadata st n = (m, st1)" by (cases "load_plugin_metadata st n")
  obtain ms2 st2 where r: "load_metadata_all st1 names = (ms2, st2)" by (cases "load_metadata_all st1 names")
  from Cons.prems m r have "st' = st2" by simp
  with Cons.IH[OF r] load_plugin_metadata_frame(1)[OF m] show ?case by simp
qed

lemma load_all_plugins_cycle:
  assumes "fs_plugin_dir_exists st" "settings_enabled st \<noteq> [] \<or> settings_auto_load st"
    "candidate_dirs st \<noteq> []"
    "load_metadata_all st (candidate_dirs st) = (ms, st1)"
    "resolve_dependencies (build_graph ms (dependency_resolver st1)) = Some (Inl (ValueError m), r')"
  shows "load_all_plugins lib pk st =
           Some (Inr Map.empty,
                 st1\<lparr> dependency_resolver := r' \<rparr>)"
    and "plugins (st1\<lparr> dependency_resolver := r' \<rparr>) = plugins st"
  using assms load_metadata_all_plugins[OF assms(4)]
  by (auto simp: load_all_plugins_def Let_def)


lemma load_all_plugins_returns: "load_all_plugins lib pk st \<noteq> None"
proof -
  obtain ms st1 where m: "load_metadata_all st (candidate_dirs st) = (ms, st1)"
    by (cases "load_metadata_all st (candidate_dirs st)")
  obtain res r' where
    "resolve_dependencies (build_graph ms (dependency_resolver st1)) = Some (res, r')"
    using resolve_dependencies_returns[of "build_graph ms (dependency_resolver st1)"] by auto
  with m show ?thesis
    by (auto simp: load_all_plugins_def Let_def split: sum.splits py_exception.splits)
qed

text \<open>
  Claim C5. For every dependency graph (every key order, every iteration order of the
  dependency sets), \<open>resolve_dependencies\<close> on a resolver as constructed terminates; if
  some plugin reaches itself along dependencies present in the graph (a self-cycle or a
  longer one) it raises \<open>ValueError\<close>; otherwise it returns a list that contains every plugin
  of the graph exactly once, each after all its dependencies that are keys of the graph.
  When the resolution inside \<open>load_all_plugins\<close> raises, the call returns the empty dict
  and the set of loaded plugins is what it was before the batch.
\<close>

theorem resolve_dependencies_topological_or_raises:
  "(\<exists>res r'. resolve_dependencies \<lparr> dependency_graph = g, resolved_order = [] \<rparr> = Some (res, r') \<and>
      (cyclic g \<longrightarrow> (\<exists>m. res = Inl (ValueError m))) \<and>
      (\<not> cyclic g \<longrightarrow> (\<exists>xs. res = Inr xs \<and> topological g xs))) \<and>
   (fs_plugin_dir_exists st \<and> (settings_enabled st \<noteq> [] \<or> settings_auto_load st) \<and>
    candidate_dirs st \<noteq> [] \<and>
    load_metadata_all st (candidate_dirs st) = (ms, st1) \<and>
    resolve_dependencies (build_graph ms (dependency_resolver st1)) = Some (Inl (ValueError m), r1)
    \<longrightarrow>
      (\<exists>st'. load_all_plugins lib pk st = Some (Inr Map.empty, st') \<and> plugins st' = plugins st))"
proof (intro conjI impI)
  let ?r = "\<lparr> dependency_graph = g, resolved_order = [] \<rparr>"
  from resolve_dependencies_props[of ?r]
  obtain res r' where r: "resolve_dependencies ?r = Some (res, r')"
    and p: "(\<forall>xs. res = Inr xs \<longrightarrow> topological g xs \<and> \<not> cyclic g) \<and>
            (\<forall>e. res = Inl e \<longrightarrow> cyclic g)"
    by (fastforce split: sum.splits)
  show "\<exists>res r'. resolve_dependencies ?r = Some (res, r') \<and>
      (cyclic g \<longrightarrow> (\<exists>m. res = Inl (ValueError m))) \<and>
      (\<not> cyclic g \<longrightarrow> (\<exists>xs. res = Inr xs \<and> topological g xs))"
  proof (cases res)
    case (Inl e)
    with r resolve_dependencies_raises_ValueError[of ?r e r'] p show ?thesis by auto
  next
    case (Inr xs)
    with r p show ?thesis by auto
  qed
next
  assume a: "fs_plugin_dir_exists st \<and> (settings_enabled st \<noteq> [] \<or> settings_auto_load st) \<and>
    candidate_dirs st \<noteq> [] \<and>
    load_metadata_all st (candidate_dirs st) = (ms, st1) \<and>
    resolve_dependencies (build_graph ms (dependency_resolver st1)) = Some (Inl (ValueError m), r1)"
  then show "\<exists>st'. load_all_plugins lib pk st = Some (Inr Map.empty, st') \<and> plugins st' = plugins st"
    using load_all_plugins_cycle(1)[of st ms st1 m r1 lib pk]
          load_all_plugins_cycle(2)[of st ms st1 m r1] by blast
qed

lemma demo_cycle_cyclic: "cyclic demo_cycle_graph"
proof -
  have e: "(''a'', ''b'') \<in> dep_edges demo_cycle_graph" "(''b'', ''c'') \<in> dep_edges demo_cycle_graph"
    "(''c'', ''a'') \<in> dep_edges demo_cycle_graph"
    by (simp_all add: dep_edges_def demo_cycle_graph_def graph_keys_def deps_of_def)
  then have "(''a'', ''a'') \<in> (dep_edges demo_cycle_graph)\<^sup>+"
    by (meson trancl.r_into_trancl trancl_trans)
  then show ?thesis unfolding cyclic_def by blast
qed

lemma demo_cycle_candidates: "candidate_dirs demo_cycle_loader = [''a'', ''b'', ''c'']"
  by (simp add: candidate_dirs_def demo_cycle_loader_def demo_loader_def demo_cycle_disk_def
      demo_cycle_dir_def Let_def)

lemma demo_cycle_graph_built:
  "dependency_graph (build_graph (fst (load_metadata_all demo_cycle_loader [''a'', ''b'', ''c'']))
      (dependency_resolver (snd (load_metadata_all demo_cycle_loader [''a'', ''b'', ''c''])))) = demo_cycle_graph"
  "resolved_order (build_graph (fst (load_metadata_all demo_cycle_loader [''a'', ''b'', ''c'']))
      (dependency_resolver (snd (load_metadata_all demo_cycle_loader [''a'', ''b'', ''c''])))) = []"
  by (simp_all add: load_plugin_metadata_def demo_cycle_loader_def demo_loader_def demo_cycle_disk_def
      demo_cycle_dir_def Let_def find_module_file_def parse_dependency_spec_def str_strip_def
      is_space_def add_plugin_def DependencyResolver_init_def demo_cycle_graph_def)

lemma demo_cycle_resolve:
  "resolve_dependencies \<lparr> dependency_graph = demo_cycle_graph, resolved_order = [] \<rparr> =
     Some (Inl (ValueError ''Circular dependency detected involving a''),
           \<lparr> dependency_graph = demo_cycle_graph, resolved_order = [] \<rparr>)"
  by (simp add: resolve_dependencies_def demo_cycle_graph_def Let_def deps_of_def graph_keys_def
      numeral_eq_Suc)


theorem resolve_dependencies_topological_or_raises_witness:
  "cyclic demo_cycle_graph \<and>
   resolve_dependencies \<lparr> dependency_graph = demo_cycle_graph, resolved_order = [] \<rparr> =
     Some (Inl (ValueError ''Circular dependency detected involving a''),
           \<lparr> dependency_graph = demo_cycle_graph, resolved_order = [] \<rparr>) \<and>
   map_option fst (resolve_dependencies \<lparr> dependency_graph = [(''a'', [''a''])], resolved_order = [] \<rparr>) =
     Some (Inl (ValueError ''Circular dependency detected involving a'')) \<and>
   map_option fst (resolve_dependencies
       \<lparr> dependency_graph = [(''c'', [''b'', ''a'']), (''b'', [''a'']), (''a'', [])],
         resolved_order = [] \<rparr>) = Some (Inr [''a'', ''b'', ''c'']) \<and>
   fs_plugin_dir_exists demo_cycle_loader \<and> settings_auto_load demo_cycle_loader \<and>
   candidate_dirs demo_cycle_loader = [''a'', ''b'', ''c''] \<and>
   map_option fst (load_all_plugins demo_lib demo_packaging demo_cycle_loader) = Some (Inr Map.empty) \<and>
   map_option (plugins \<circ> snd) (load_all_plugins demo_lib demo_packaging demo_cycle_loader) =
     Some Map.empty"
proof -
  let ?ms = "fst (load_metadata_all demo_cycle_loader [''a'', ''b'', ''c''])"
  let ?st1 = "snd (load_metadata_all demo_cycle_loader [''a'', ''b'', ''c''])"
  let ?r = "build_graph ?ms (dependency_resolver ?st1)"
  have r: "?r = \<lparr> dependency_graph = demo_cycle_graph, resolved_order = [] \<rparr>"
    using demo_cycle_graph_built by (cases ?r) simp
  have f: "fs_plugin_dir_exists demo_cycle_loader" "settings_auto_load demo_cycle_loader"
    "plugins demo_cycle_loader = Map.empty"
    by (simp_all add: demo_cycle_loader_def demo_loader_def)
  have l: "load_metadata_all demo_cycle_loader (candidate_dirs demo_cycle_loader) = (?ms, ?st1)"
    by (simp add: demo_cycle_candidates)
  from resolve_dependencies_topological_or_raises
         [of demo_cycle_graph demo_cycle_loader ?ms ?st1
             "''Circular dependency detected involving a''"
             "\<lparr> dependency_graph = demo_cycle_graph, resolved_order = [] \<rparr>"
             demo_lib demo_packaging]
       f l r demo_cycle_resolve demo_cycle_candidates
  obtain st' where
    "load_all_plugins demo_lib demo_packaging demo_cycle_loader = Some (Inr Map.empty, st')"
    "plugins st' = Map.empty"
    by auto
  moreover have "map_option fst (resolve_dependencies \<lparr> dependency_graph = [(''a'', [''a''])], resolved_order = [] \<rparr>) =
     Some (Inl (ValueError ''Circular dependency detected involving a''))"
    by (simp add: resolve_dependencies_def Let_def deps_of_def graph_keys_def numeral_eq_Suc)
  moreover have "map_option fst (resolve_dependencies
       \<lparr> dependency_graph = [(''c'', [''b'', ''a'']), (''b'', [''a'']), (''a'', [])],
         resolved_order = [] \<rparr>) = Some (Inr [''a'', ''b'', ''c''])"
    by (simp add: resolve_dependencies_def Let_def deps_of_def graph_keys_def numeral_eq_Suc)
  ultimately show ?thesis
    using demo_cycle_cyclic demo_cycle_resolve f demo_cycle_candidates by simp
qed

subsection \<open>Permission engine and ledger\<close>

lemma init_engine: "PermissionEngine_init = Inr permission_engine"
  by (simp add: PermissionEngine_init_def permission_engine_def default_permissions_def register_def
    event_perms_def file_read_plugin_def file_write_plugin_def network_https_def network_http_def
    api_create_route_def system_subprocess_def)

lemma find_definition_member:
  "find_definition lib ps t r = Some d \<Longrightarrow> d \<in> set ps"
  by (induction ps) (auto split: if_splits option.splits)

lemma grant_loop_names:
  "set (grant_loop lib eng perms gs) \<subseteq> set gs \<union> pd_name ` snd ` set (permissions eng)"
proof (induction perms arbitrary: gs)
  case Nil
  then show ?case by simp
next
  case (Cons a perms)
  show ?case
  proof (cases "find_definition_for_declaration lib eng (perm_type a) (perm_resource a)")
    case None
    with Cons.IH[of gs] show ?thesis by simp
  next
    case (Some d)
    then have "d \<in> snd ` set (permissions eng)"
      by (auto simp: find_definition_for_declaration_def dest: find_definition_member)
    with Cons.IH[of "set_add (pd_name d) gs"] Some show ?thesis
      by (auto simp: set_add_def split: if_splits)
  qed
qed

lemma permission_engine_names_literal:
  "\<forall>n \<in> pd_name ` snd ` set (permissions permission_engine). literal_pattern n"
  by (simp add: permission_engine_def literal_pattern_def file_read_plugin_def
      file_write_plugin_def network_https_def network_http_def api_create_route_def
      system_subprocess_def)

lemma grant_permissions_literal:
  assumes "\<forall>g \<in> set (granted_names pm q). literal_pattern g"
  shows "\<forall>g \<in> set (granted_names (grant_permissions lib permission_engine p perms pm) q).
           literal_pattern g"
proof (cases "q = p")
  case False
  with assms show ?thesis by (simp add: grant_permissions_def granted_names_def)
next
  case True
  have "set (granted_names (grant_permissions lib permission_engine p perms pm) p) \<subseteq>
          set (granted_names pm p) \<union> pd_name ` snd ` set (permissions permission_engine)"
    using grant_loop_names[of lib permission_engine perms "granted_names pm p"]
    by (simp add: grant_permissions_def granted_names_def)
  with assms True permission_engine_names_literal show ?thesis by blast
qed

subsection \<open>Interception engine\<close>

lemma check_wildcards_literal:
  assumes "fnmatch_literal lib" "\<forall>g \<in> set gs. literal_pattern g" "name \<notin> set gs"
  shows "check_wildcards lib eng gs name res = Inr False"
  using assms by (induction gs) (auto simp: fnmatch_literal_def)

lemma check_permission_literal:
  assumes "fnmatch_literal lib" "\<forall>g \<in> set (granted_names pm p). literal_pattern g"
  shows "check_permission lib eng pm p name res = Inr (name \<in> set (granted_names pm p))"
  using assms check_wildcards_literal[of lib "granted_names pm p" name eng res]
  by (auto simp: check_permission_def granted_names_def split: option.splits)

lemma check_required_literal:
  assumes "fnmatch_literal lib" "\<forall>g \<in> set (granted_names pm p). literal_pattern g"
  shows "(\<exists>x \<in> set required. pd_name (fst x) \<in> set (granted_names pm p)) \<Longrightarrow>
           \<exists>checked'. check_required lib eng pm p required checked = Inr (True, checked')"
    and "(\<forall>x \<in> set required. pd_name (fst x) \<notin> set (granted_names pm p)) \<Longrightarrow>
           check_required lib eng pm p required checked =
             Inr (False, checked @ map (pd_name \<circ> fst) required)"
proof -
  note cp = check_permission_literal[OF assms]
  show "(\<exists>x \<in> set required. pd_name (fst x) \<in> set (granted_names pm p)) \<Longrightarrow>
           \<exists>checked'. check_required lib eng pm p required checked = Inr (True, checked')"
  proof (induction required arbitrary: checked)
    case Nil
    then show ?case by simp
  next
    case (Cons x required)
    obtain d r where x: "x = (d, r)" by (cases x)
    show ?case
    proof (cases "pd_name d \<in> set (granted_names pm p)")
      case True
      with x show ?thesis by (simp add: cp)
    next
      case False
      with Cons.prems x have "\<exists>x \<in> set required. pd_name (fst x) \<in> set (granted_names pm p)"
        by auto
      from Cons.IH[OF this] False x show ?thesis by (simp add: cp)
    qed
  qed
  show "(\<forall>x \<in> set required. pd_name (fst x) \<notin> set (granted_names pm p)) \<Longrightarrow>
           check_required lib eng pm p required checked =
             Inr (False, checked @ map (pd_name \<circ> fst) required)"
    by (induction required arbitrary: checked) (auto simp: cp)
qed

lemma deny_neq: "deny p m am \<noteq> (None, am')" "fst (deny p m am) = Some (PermissionError m)"
  by (simp_all add: deny_def)

lemma lock_access_pass:
  "is_lock_file_access lib am p path_arg mode flags = (None, am1) \<Longrightarrow> am1 = am"
  by (auto simp: is_lock_file_access_def lock_access_except_def Let_def deny_def
      split: sum.splits option.splits if_splits)

lemma check_modified_pass:
  "check_modified_paths am p event ps = (None, am1) \<Longrightarrow> am1 = am"
  by (induction ps) (auto simp: deny_def split: if_splits)

lemma fixed_rules_pass:
  "fixed_rules lib am p event args = (None, am1) \<Longrightarrow> am1 = am"
  by (auto simp: fixed_rules_def is_lock_file_modification_def
      split: if_splits list.splits dest: lock_access_pass check_modified_pass)


lemma get_violations_log:
  "get_violations (log_violation p m pm) p = get_violations pm p @ [m]"
  by (simp add: get_violations_def log_violation_def)

lemma glob_match_literal: "literal_pattern pat \<Longrightarrow> glob_match pat name = (name = pat)"
  by (induction pat name rule: glob_match.induct) (auto simp: literal_pattern_def)

lemma demo_lib_literal: "fnmatch_literal demo_lib"
  by (simp add: fnmatch_literal_def demo_lib_def glob_match_literal)


lemmas hook_defs =
  audit_hook_def fixed_rules_def is_lock_file_access_def is_lock_file_modification_def
  paths_to_check_def lock_access_except_def enforce_directory_jail_def capability_check_def
  map_event_to_permissions_def potential_perms_def event_perms_def resource_to_match_def
  resource_to_return_def check_permission_def has_permission_prefix_def deny_def
  is_write_access_def path_join_def py_str_def str_lower_def replace_char_def
  permission_engine_def file_read_plugin_def file_write_plugin_def network_https_def
  network_http_def api_create_route_def system_subprocess_def
  demo_lib_def demo_manager_def Let_def

lemma open_secure_dir_denied:
  assumes "p \<noteq> []" "abspath lib (py_str lib path_arg) = Inr ap" "getcwd lib = Inr root"
    "abspath lib (path_join root ''system_secure'') = Inr sd" "prefix (sd @ ''/'') ap"
  shows "audit_hook lib eng am (Some p) ''open'' [path_arg, mode, flags] =
           deny p (''Plugin '' @ quoted p @ '' attempted to access system secure directory: '' @
                   py_str lib path_arg @ ''. Access denied!'') am"
  using assms by (simp add: audit_hook_def fixed_rules_def is_lock_file_access_def Let_def deny_def)

lemma open_own_lock_file_denied:
  assumes "p \<noteq> []" "abspath lib (py_str lib path_arg) = Inr ap" "getcwd lib = Inr root"
    "abspath lib (path_join root ''system_secure'') = Inr sd" "\<not> prefix (sd @ ''/'') ap"
    "am_plugin_root_paths am p = Some plugin_root" "plugin_root \<noteq> []"
    "abspath lib plugin_root = Inr root_abs" "ap = path_join root_abs ''permissions.lock.json''"
  shows "audit_hook lib eng am (Some p) ''open'' [path_arg, mode, flags] =
           deny p (''Plugin '' @ quoted p @ '' attempted to access its own lock file: '' @
                   py_str lib path_arg) am"
  using assms by (simp add: audit_hook_def fixed_rules_def is_lock_file_access_def Let_def deny_def)

lemma lock_file_removal_denied:
  assumes "p \<noteq> []" "event = ''os.remove'' \<or> event = ''os.unlink''"
    "str_contains ''permissions.lock.json''
       (replace_char (CHR 0x5C) CHR ''/'' (str_lower (py_str lib path_arg)))"
  shows "audit_hook lib eng am (Some p) event (path_arg # rest) =
           deny p (''Plugin '' @ quoted p @ '' attempted to modify a lock file via '' @ event @
                   '': '' @ py_str lib path_arg) am"
  using assms
  by (auto simp: audit_hook_def fixed_rules_def is_lock_file_modification_def paths_to_check_def
      deny_def)

lemma jail_inside_allows:
  assumes "abspath lib path = Inr ap" "am_plugin_root_paths am p = Some plugin_root"
    "plugin_root \<noteq> []" "abspath lib plugin_root = Inr root_abs" "getcwd lib = Inr root"
    "abspath lib (path_join (path_join (path_join root ''data'') ''temp'') p) = Inr temp_abs"
    "prefix (root_abs @ ''/'') ap \<or> ap = root_abs \<or> prefix (temp_abs @ ''/'') ap \<or> ap = temp_abs"
  shows "enforce_directory_jail lib am p path = None"
  using assms by (auto simp: enforce_directory_jail_def Let_def)

lemma jail_outside:
  assumes "abspath lib path = Inr ap" "am_plugin_root_paths am p = Some plugin_root"
    "plugin_root \<noteq> []" "abspath lib plugin_root = Inr root_abs" "getcwd lib = Inr root"
    "abspath lib (path_join (path_join (path_join root ''data'') ''temp'') p) = Inr temp_abs"
    "\<not> (prefix (root_abs @ ''/'') ap \<or> ap = root_abs \<or> prefix (temp_abs @ ''/'') ap \<or> ap = temp_abs)"
  shows "enforce_directory_jail lib am p path =
           (if has_permission_prefix (permission_manager am) p ''system.'' then None
            else Some (PermissionError (''Plugin '' @ quoted p @
                   '' attempted to access path outside its allowed directories: '' @ path)))"
  using assms by (auto simp: enforce_directory_jail_def Let_def)

lemma open_jail_failure_denied:
  assumes "p \<noteq> []" "fixed_rules lib am p ''open'' args = (None, am)"
    "map_event_to_permissions eng ''open'' args = Inr required" "required \<noteq> []"
    "enforce_directory_jail lib am p (py_str lib (args ! 0)) = Some e"
  shows "audit_hook lib eng am (Some p) ''open'' args =
           (Some e, am\<lparr> permission_manager :=
                         log_violation p (exception_message e) (permission_manager am) \<rparr>)"
  using assms by (simp add: audit_hook_def)

text \<open>
  Claim C2 holds for \<open>open\<close> (lemmas \<open>open_secure_dir_denied\<close> and
  \<open>open_own_lock_file_denied\<close>) and, for lock files, for \<open>os.remove\<close> and \<open>os.unlink\<close>
  (lemma \<open>lock_file_removal_denied\<close>). It fails for the removal of a file under the secure
  directory: the hook lets plugin \<open>p\<close> remove \<open>/srv/prism/system_secure/master.key\<close>
  (no exception, nothing logged), while an \<open>open\<close> of the same path by the same plugin is
  denied.
\<close>

theorem secure_dir_removal_passes:
  "prefix (''/srv/prism/system_secure'' @ ''/'') ''/srv/prism/system_secure/master.key'' \<and>
   audit_hook demo_lib permission_engine (demo_manager [''file.read.plugin'']) (Some ''p'')
     ''os.remove'' [PStr ''/srv/prism/system_secure/master.key'', PInt (- 1)] =
     (None, demo_manager [''file.read.plugin'']) \<and>
   fst (audit_hook demo_lib permission_engine (demo_manager [''file.read.plugin'']) (Some ''p'')
     ''open'' [PStr ''/srv/prism/system_secure/master.key'', PStr ''r'', PInt 0]) =
     Some (PermissionError
       (''Plugin '' @ quoted ''p'' @ '' attempted to access system secure directory: '' @
        ''/srv/prism/system_secure/master.key'' @ ''. Access denied!''))"
  by (simp add: hook_defs lower_char_def)

text \<open>
  Claim C3 holds of \<open>_enforce_directory_jail\<close> itself (lemmas \<open>jail_inside_allows\<close> and
  \<open>jail_outside\<close>) and of the hook whenever the jail is reached (lemma
  \<open>open_jail_failure_denied\<close>). It fails for an \<open>open\<close> whose mode no capability matcher
  accepts: with mode \<open>x\<close> the hook returns before the jail, so plugin \<open>p\<close>, holding no
  capability at all, may create \<open>/etc/cron.d/job\<close>, a path the jail itself rejects.
\<close>

theorem exclusive_create_skips_jail:
  "granted_names (permission_manager (demo_manager [])) ''p'' = [] \<and>
   enforce_directory_jail demo_lib (demo_manager []) ''p'' ''/etc/cron.d/job'' =
     Some (PermissionError (''Plugin '' @ quoted ''p'' @
        '' attempted to access path outside its allowed directories: '' @ ''/etc/cron.d/job'')) \<and>
   map_event_to_permissions permission_engine ''open''
     [PStr ''/etc/cron.d/job'', PStr ''x'', PInt 0] = Inr [] \<and>
   audit_hook demo_lib permission_engine (demo_manager []) (Some ''p'')
     ''open'' [PStr ''/etc/cron.d/job'', PStr ''x'', PInt 0] = (None, demo_manager [])"
  by (simp add: hook_defs granted_names_def)

text \<open>
  Claim C4 as stated fails: plugin \<open>p\<close> opens \<open>/etc/passwd\<close> for reading; the fixed rules
  pass, the event maps to the one capability \<open>file.read.plugin\<close>, the plugin holds it, and
  the operation is still denied, by the directory jail.
\<close>

theorem held_capability_denied_by_jail:
  "fixed_rules demo_lib (demo_manager [''file.read.plugin'']) ''p'' ''open''
     [PStr ''/etc/passwd'', PStr ''r'', PInt 0] = (None, demo_manager [''file.read.plugin'']) \<and>
   map_event_to_permissions permission_engine ''open'' [PStr ''/etc/passwd'', PStr ''r'', PInt 0] =
     Inr [(file_read_plugin, PStr ''/etc/passwd'')] \<and>
   pd_name file_read_plugin \<in> set (granted_names (permission_manager (demo_manager [''file.read.plugin''])) ''p'') \<and>
   fst (audit_hook demo_lib permission_engine (demo_manager [''file.read.plugin'']) (Some ''p'')
     ''open'' [PStr ''/etc/passwd'', PStr ''r'', PInt 0]) =
     Some (PermissionError (''Plugin '' @ quoted ''p'' @
        '' attempted to access path outside its allowed directories: '' @ ''/etc/passwd''))"
  by (simp add: hook_defs granted_names_def)

text \<open>
  Claim C4, amended. For an event of a plugin in scope that passes the fixed rules and,
  when it is an \<open>open\<close>, the directory jail, and that maps to a non-empty list of required
  capabilities: if the plugin holds one of them the hook returns and changes nothing; if it
  holds none the hook raises \<open>PermissionError\<close> and appends the message to the plugin's
  violations, the grants staying as they are. The ledger holds capability names without
  pattern metacharacters, as the loader writes them (lemma \<open>grant_permissions_literal\<close>),
  and \<open>fnmatch\<close> matches such a name only against itself.
\<close>

theorem capability_check_after_jails:
  "p \<noteq> [] \<and> fixed_rules lib am p event args = (None, am) \<and>
   map_event_to_permissions eng event args = Inr required \<and> required \<noteq> [] \<and>
   (event = ''open'' \<longrightarrow> enforce_directory_jail lib am p (py_str lib (args ! 0)) = None) \<and>
   fnmatch_literal lib \<and>
   (\<forall>g \<in> set (granted_names (permission_manager am) p). literal_pattern g)
   \<longrightarrow>
   ((\<exists>x \<in> set required. pd_name (fst x) \<in> set (granted_names (permission_manager am) p)) \<longrightarrow>
      audit_hook lib eng am (Some p) event args = (None, am)) \<and>
   ((\<forall>x \<in> set required. pd_name (fst x) \<notin> set (granted_names (permission_manager am) p)) \<longrightarrow>
      (\<exists>msg am'. audit_hook lib eng am (Some p) event args = (Some (PermissionError msg), am') \<and>
         get_violations (permission_manager am') p =
           get_violations (permission_manager am) p @ [msg] \<and>
         granted_permissions (permission_manager am') = granted_permissions (permission_manager am)))"
proof (intro impI conjI)
  assume h: "p \<noteq> [] \<and> fixed_rules lib am p event args = (None, am) \<and>
   map_event_to_permissions eng event args = Inr required \<and> required \<noteq> [] \<and>
   (event = ''open'' \<longrightarrow> enforce_directory_jail lib am p (py_str lib (args ! 0)) = None) \<and>
   fnmatch_literal lib \<and>
   (\<forall>g \<in> set (granted_names (permission_manager am) p). literal_pattern g)"
  then have hook: "audit_hook lib eng am (Some p) event args =
                     capability_check lib eng am p event args required"
    by (auto simp: audit_hook_def)
  from h have lit: "fnmatch_literal lib"
    "\<forall>g \<in> set (granted_names (permission_manager am) p). literal_pattern g" by simp_all
  {
    assume "\<exists>x \<in> set required. pd_name (fst x) \<in> set (granted_names (permission_manager am) p)"
    from check_required_literal(1)[OF lit this, of eng "[]"]
    show "audit_hook lib eng am (Some p) event args = (None, am)"
      by (auto simp: hook capability_check_def)
  }
  {
    assume "\<forall>x \<in> set required. pd_name (fst x) \<notin> set (granted_names (permission_manager am) p)"
    from check_required_literal(2)[OF lit this, of eng "[]"]
    obtain msg where "audit_hook lib eng am (Some p) event args = deny p msg am"
      by (simp add: hook capability_check_def)
    then have "audit_hook lib eng am (Some p) event args =
                 (Some (PermissionError msg),
                  am\<lparr> permission_manager := log_violation p msg (permission_manager am) \<rparr>) \<and>
               get_violations (permission_manager
                  (am\<lparr> permission_manager := log_violation p msg (permission_manager am) \<rparr>)) p =
                 get_violations (permission_manager am) p @ [msg] \<and>
               granted_permissions (permission_manager
                  (am\<lparr> permission_manager := log_violation p msg (permission_manager am) \<rparr>)) =
                 granted_permissions (permission_manager am)"
      by (simp add: deny_def get_violations_log) (simp add: log_violation_def)
    then show "\<exists>msg am'. audit_hook lib eng am (Some p) event args = (Some (PermissionError msg), am') \<and>
         get_violations (permission_manager am') p =
           get_violations (permission_manager am) p @ [msg] \<and>
         granted_permissions (permission_manager am') = granted_permissions (permission_manager am)"
      by blast
  }
qed


theorem capability_check_after_jails_witness:
  "fixed_rules demo_lib (demo_manager [''file.read.plugin'']) ''p'' ''open''
     [PStr ''/srv/prism/plugins/p/a.txt'', PStr ''r'', PInt 0] =
     (None, demo_manager [''file.read.plugin'']) \<and>
   map_event_to_permissions permission_engine ''open''
     [PStr ''/srv/prism/plugins/p/a.txt'', PStr ''r'', PInt 0] =
     Inr [(file_read_plugin, PStr ''/srv/prism/plugins/p/a.txt'')] \<and>
   enforce_directory_jail demo_lib (demo_manager [''file.read.plugin'']) ''p''
     ''/srv/prism/plugins/p/a.txt'' = None \<and>
   fnmatch_literal demo_lib \<and>
   granted_names (permission_manager (demo_manager [''file.read.plugin''])) ''p'' = [''file.read.plugin''] \<and>
   literal_pattern ''file.read.plugin'' \<and>
   audit_hook demo_lib permission_engine (demo_manager [''file.read.plugin'']) (Some ''p'') ''open''
     [PStr ''/srv/prism/plugins/p/a.txt'', PStr ''r'', PInt 0] =
     (None, demo_manager [''file.read.plugin'']) \<and>
   map_event_to_permissions permission_engine ''open''
     [PStr ''/srv/prism/plugins/p/a.txt'', PStr ''w'', PInt 0] =
     Inr [(file_write_plugin, PStr ''/srv/prism/plugins/p/a.txt'')] \<and>
   map_option is_PermissionError
     (fst (audit_hook demo_lib permission_engine (demo_manager [''file.read.plugin'']) (Some ''p'')
        ''open'' [PStr ''/srv/prism/plugins/p/a.txt'', PStr ''w'', PInt 0])) = Some True \<and>
   length (get_violations (permission_manager
     (snd (audit_hook demo_lib permission_engine (demo_manager [''file.read.plugin'']) (Some ''p'')
        ''open'' [PStr ''/srv/prism/plugins/p/a.txt'', PStr ''w'', PInt 0]))) ''p'') = 1"
proof -
  let ?am = "demo_manager [''file.read.plugin'']"
  let ?r = "[PStr ''/srv/prism/plugins/p/a.txt'', PStr ''r'', PInt 0]"
  let ?w = "[PStr ''/srv/prism/plugins/p/a.txt'', PStr ''w'', PInt 0]"
  have f: "fixed_rules demo_lib ?am ''p'' ''open'' ?r = (None, ?am)"
    "fixed_rules demo_lib ?am ''p'' ''open'' ?w = (None, ?am)"
    by (simp_all add: hook_defs)
  have m: "map_event_to_permissions permission_engine ''open'' ?r =
             Inr [(file_read_plugin, PStr ''/srv/prism/plugins/p/a.txt'')]"
    "map_event_to_permissions permission_engine ''open'' ?w =
             Inr [(file_write_plugin, PStr ''/srv/prism/plugins/p/a.txt'')]"
    by (simp_all add: hook_defs)
  have j: "enforce_directory_jail demo_lib ?am ''p'' ''/srv/prism/plugins/p/a.txt'' = None"
    by (simp add: hook_defs)
  have g: "granted_names (permission_manager ?am) ''p'' = [''file.read.plugin'']"
    by (simp add: granted_names_def demo_manager_def)
  have l: "literal_pattern ''file.read.plugin''" by (simp add: literal_pattern_def)
  have v: "get_violations (permission_manager ?am) ''p'' = []"
    by (simp add: get_violations_def demo_manager_def)
  have n: "pd_name file_read_plugin = ''file.read.plugin''"
    "pd_name file_write_plugin = ''file.write.plugin''"
    by (simp_all add: file_read_plugin_def file_write_plugin_def)
  have s: "py_str demo_lib (?r ! 0) = ''/srv/prism/plugins/p/a.txt''"
    "py_str demo_lib (?w ! 0) = ''/srv/prism/plugins/p/a.txt''"
    by (simp_all add: py_str_def)
  from capability_check_after_jails
         [of "''p''" demo_lib ?am "''open''" ?r permission_engine
             "[(file_read_plugin, PStr ''/srv/prism/plugins/p/a.txt'')]"]
       f m j demo_lib_literal g l n s
  have a: "audit_hook demo_lib permission_engine ?am (Some ''p'') ''open'' ?r = (None, ?am)"
    by simp
  from capability_check_after_jails
         [of "''p''" demo_lib ?am "''open''" ?w permission_engine
             "[(file_write_plugin, PStr ''/srv/prism/plugins/p/a.txt'')]"]
       f m j demo_lib_literal g l n s
  obtain msg am' where
    "audit_hook demo_lib permission_engine ?am (Some ''p'') ''open'' ?w = (Some (PermissionError msg), am')"
    "get_violations (permission_manager am') ''p'' = get_violations (permission_manager ?am) ''p'' @ [msg]"
    by auto
  with v have b: "map_option is_PermissionError
     (fst (audit_hook demo_lib permission_engine ?am (Some ''p'') ''open'' ?w)) = Some True"
    "length (get_violations (permission_manager
       (snd (audit_hook demo_lib permission_engine ?am (Some ''p'') ''open'' ?w))) ''p'') = 1"
    by simp_all
  from f(1) m j demo_lib_literal g l a b show ?thesis by simp
qed

subsection \<open>Version constraints in the dependency gate\<close>

text \<open>
  Claim C9. A declared version constraint that the library cannot parse (the version string
  raises \<open>InvalidVersion\<close>, or the constraint raises \<open>InvalidSpecifier\<close>) is answered
  \<open>True\<close> by \<open>_version_satisfies\<close>, with exactly one warning logged. In the dependency
  gate of \<open>load_all_plugins\<close>, a plugin all of whose dependencies are loaded and whose
  constraints are absent or unparseable has no unmet dependency, and the loop hands it to
  \<open>load_plugin\<close> instead of skipping it.
\<close>

theorem unparseable_constraint_is_permissive:
  "(constraint \<noteq> [] \<and> unparseable pk version constraint \<longrightarrow>
      version_satisfies pk version constraint =
        (True, [(LWarning, ''Could not validate version constraint'')])) \<and>
   ((\<forall>dep \<in> set deps. \<exists>md. loaded dep = Some md \<and>
        (case constraints dep of None \<Rightarrow> True
         | Some c \<Rightarrow> c = [] \<or> unparseable pk (meta_version md) c)) \<longrightarrow>
      fst (unmet_dependencies pk loaded constraints deps) = []) \<and>
   (declared_dependencies st plugin_name = Some deps \<and>
    version_constraints st plugin_name = Some constraints \<and>
    (\<forall>dep \<in> set deps. \<exists>md. plugin_metadata st dep = Some md \<and>
        (case constraints dep of None \<Rightarrow> True
         | Some c \<Rightarrow> c = [] \<or> unparseable pk (meta_version md) c)) \<longrightarrow>
      load_one lib pk st plugin_name = snd (load_plugin lib st plugin_name))"
  using version_satisfies_unparseable[of constraint pk version]
        unmet_dependencies_permissive
          [where deps = deps and loaded = loaded and constraints = constraints and pk = pk]
        unmet_dependencies_permissive
          [where deps = deps and loaded = "plugin_metadata st" and constraints = constraints
             and pk = pk]
  by (auto simp: load_one_def Let_def)

text \<open>
  At a concrete input: \<open>echo\<close> depends on \<open>core@not a spec\<close>; \<open>core\<close> is loaded in version
  \<open>1.2.0\<close>; the constraint is not a specifier.
\<close>

theorem unparseable_constraint_is_permissive_witness:
  "''not a spec'' \<noteq> [] \<and> unparseable demo_packaging ''1.2.0'' ''not a spec'' \<and>
   version_satisfies demo_packaging ''1.2.0'' ''not a spec'' =
        (True, [(LWarning, ''Could not validate version constraint'')]) \<and>
   fst (unmet_dependencies demo_packaging demo_metadata
          [''core'' \<mapsto> ''not a spec''] [''core'']) = [] \<and>
   load_one demo_lib demo_packaging
      (demo_loader\<lparr> plugin_metadata := demo_metadata,
                    declared_dependencies := [''echo'' \<mapsto> [''core'']],
                    version_constraints := [''echo'' \<mapsto> [''core'' \<mapsto> ''not a spec'']] \<rparr>) ''echo'' =
     snd (load_plugin demo_lib
      (demo_loader\<lparr> plugin_metadata := demo_metadata,
                    declared_dependencies := [''echo'' \<mapsto> [''core'']],
                    version_constraints := [''echo'' \<mapsto> [''core'' \<mapsto> ''not a spec'']] \<rparr>) ''echo'')"
proof -
  let ?st = "demo_loader\<lparr> plugin_metadata := demo_metadata,
                    declared_dependencies := [''echo'' \<mapsto> [''core'']],
                    version_constraints := [''echo'' \<mapsto> [''core'' \<mapsto> ''not a spec'']] \<rparr>"
  have u: "unparseable demo_packaging ''1.2.0'' ''not a spec''"
    by (simp add: unparseable_def demo_packaging_def)
  have d: "\<forall>dep \<in> set [''core'']. \<exists>md. demo_metadata dep = Some md \<and>
        (case [''core'' \<mapsto> ''not a spec''] dep of None \<Rightarrow> True
         | Some c \<Rightarrow> c = [] \<or> unparseable demo_packaging (meta_version md) c)"
    using u by (simp add: demo_metadata_def)
  have s: "declared_dependencies ?st ''echo'' = Some [''core'']"
    "version_constraints ?st ''echo'' = Some [''core'' \<mapsto> ''not a spec'']"
    "plugin_metadata ?st = demo_metadata"
    by simp_all
  from u d s unparseable_constraint_is_permissive
    [where constraint = "''not a spec''" and pk = demo_packaging and version = "''1.2.0''"
       and deps = "[''core'']" and loaded = demo_metadata
       and constraints = "[''core'' \<mapsto> ''not a spec'']" and st = ?st
       and plugin_name = "''echo''" and lib = demo_lib]
  show ?thesis by simp
qed

end
